theory Spec2Isabelle
  imports Complex_Main "HOL-Library.AList" "HOL-Library.Sublist"
begin

section \<open>Python values, dictionaries and exceptions\<close>

text \<open>
  The exception kinds of \<^verbatim>\<open>archer_modernized.py\<close> (lines 31-59), the built-in ones its
  dictionary and list accesses raise, and the ones the HTTP library raises. Messages are
  not modelled: every claim is about the kind of the exception.
\<close>

datatype error =
    ArcherAPIError | AuthenticationError | ApplicationNotFoundError
  | GroupNotFoundError | RecordNotFoundError | FieldNotFoundError
  | ValueError | KeyError | TypeError | IndexError | JSONDecodeError
  | UnboundLocalError | NetworkError | TimeoutException

text \<open>
  A dictionary is an association list in insertion order with pairwise different keys:
  \<open>d[k]\<close> is \<open>map_of d k\<close>, \<open>d[k] = v\<close> is \<open>AList.update k v d\<close> (the old position is
  kept, a new key goes to the end), \<open>d.keys()\<close> is \<open>map fst d\<close>. The keys of the
  dictionaries of this program are strings or integers.
\<close>

datatype key = KStr string | KInt int

datatype pyval =
    PNone | PBool bool | PInt int | PStr string
  | PList "pyval list" | PDict "(key \<times> pyval) list"

text \<open>Python's truth test, on \<open>str | None\<close>, on \<open>int | None\<close> and on a JSON value.\<close>

definition truthy_str :: "string option \<Rightarrow> bool" where
  "truthy_str s = (case s of None \<Rightarrow> False | Some t \<Rightarrow> t \<noteq> [])"

definition truthy_int :: "int option \<Rightarrow> bool" where
  "truthy_int i = (case i of None \<Rightarrow> False | Some n \<Rightarrow> n \<noteq> 0)"

fun truthy :: "pyval \<Rightarrow> bool" where
  "truthy PNone = False"
| "truthy (PBool b) = b"
| "truthy (PInt i) = (i \<noteq> 0)"
| "truthy (PStr s) = (s \<noteq> [])"
| "truthy (PList xs) = (xs \<noteq> [])"
| "truthy (PDict d) = (d \<noteq> [])"

text \<open>\<open>a in b\<close> on strings: \<open>a\<close> occurs in \<open>b\<close> as a contiguous piece.\<close>

fun str_in :: "string \<Rightarrow> string \<Rightarrow> bool" where
  "str_in a [] = (a = [])"
| "str_in a (c # cs) = (prefix a (c # cs) \<or> str_in a cs)"

section \<open>The client object\<close>

record auth_credentials =
  cred_instance_name :: string
  cred_username :: string
  cred_password :: string
  cred_user_domain :: string

record ssl_config =
  verify :: bool
  ca_cert_path :: "string option"

text \<open>
  What the two mixed dictionaries hold: \<open>application_fields_json\<close> maps a field name to
  the field's id and a field id to the dictionary \<open>{"Type": .., "FieldId": ..}\<close>; a
  subform's dictionary holds the same and, under \<open>"AllFields"\<close>, the list of its ids.
\<close>

datatype entry = Num int | Def "(key \<times> pyval) list" | Arr "int list"

record archer =
  api_url_base :: string
  content_api_url_base :: string
  instance_name :: string
  timeout :: real
  ssl_config :: ssl_config
  credentials :: "auth_credentials option"
  session_token :: "string option"
  client :: bool
  application_level_id :: string
  application_fields_json :: "(key \<times> entry) list"
  all_application_fields_array :: "int list"
  vl_name_to_vl_id :: "(string \<times> int) list"
  subforms_json_by_sf_name :: "(string \<times> (key \<times> entry) list) list"
  key_field_value_to_system_id :: "(string \<times> pyval) list"
  archer_groups_name_to_id :: "(string \<times> int) list"

text \<open>
  \<open>ArcherInstance.__init__\<close> (lines 120-163). \<open>credentials\<close> and \<open>session_token\<close> are the
  attributes \<open>_credentials\<close> and \<open>_session_token\<close>; \<open>client\<close> says whether \<open>_client\<close>
  holds an HTTP client.
\<close>

definition init ::
  "string \<Rightarrow> string \<Rightarrow> string option \<Rightarrow> string option \<Rightarrow> string option \<Rightarrow>
   bool \<Rightarrow> string option \<Rightarrow> real \<Rightarrow> error + archer" where
  "init inst_url inst_name username password token ssl_verify ca_cert tmo =
    (let ca_path = (if truthy_str ca_cert then ca_cert else None);
         self = \<lparr>api_url_base = ''https://'' @ inst_url @ ''/RSAarcher/api/'',
                 content_api_url_base = ''https://'' @ inst_url @ ''/RSAarcher/contentapi/'',
                 instance_name = inst_name,
                 timeout = tmo,
                 ssl_config = \<lparr>verify = ssl_verify, ca_cert_path = ca_path\<rparr>,
                 credentials = None,
                 session_token = token,
                 client = False,
                 application_level_id = [],
                 application_fields_json = [],
                 all_application_fields_array = [],
                 vl_name_to_vl_id = [],
                 subforms_json_by_sf_name = [],
                 key_field_value_to_system_id = [],
                 archer_groups_name_to_id = []\<rparr>
     in if truthy_str username \<and> truthy_str password
        then Inr (self\<lparr>credentials :=
                    Some \<lparr>cred_instance_name = inst_name, cred_username = the username,
                          cred_password = the password, cred_user_domain = []\<rparr>\<rparr>)
        else if \<not> truthy_str token then Inl ValueError
        else Inr self)"

text \<open>The property \<open>_headers\<close> (lines 190-199).\<close>

definition headers :: "archer \<Rightarrow> (string \<times> string) list" where
  "headers st =
    (let h = [(''Accept'',
               ''application/json,text/html,application/xhtml+xml,application/xml;q=0.9,*/*;q=0.8''),
              (''Content-Type'', ''application/json'')]
     in if truthy_str (session_token st)
        then AList.update ''Authorization'' (''Archer session-id='' @ the (session_token st)) h
        else h)"

section \<open>Cache lookups\<close>

text \<open>
  The synchronous lookups read the caches and write nothing; each returns the client
  object next to its result, so that this is a statement about the model.
\<close>

definition find_group :: "string \<Rightarrow> archer \<Rightarrow> (error + string list) \<times> archer" where
  "find_group name st =
    (if name = [] then (Inr (map fst (archer_groups_name_to_id st)), st)
     else let matches = filter (str_in name) (map fst (archer_groups_name_to_id st))
          in if matches = [] then (Inl GroupNotFoundError, st) else (Inr matches, st))"

definition get_group_id :: "string \<Rightarrow> archer \<Rightarrow> (error + int) \<times> archer" where
  "get_group_id group_name st =
    (case map_of (archer_groups_name_to_id st) group_name of
       None \<Rightarrow> (Inl GroupNotFoundError, st)
     | Some gid \<Rightarrow> (Inr gid, st))"

definition get_vl_id_by_field_name :: "string \<Rightarrow> archer \<Rightarrow> (error + int) \<times> archer" where
  "get_vl_id_by_field_name vl_field_name st =
    (case map_of (vl_name_to_vl_id st) vl_field_name of
       None \<Rightarrow> (Inl FieldNotFoundError, st)
     | Some vid \<Rightarrow> (Inr vid, st))"

definition get_record_id_by_unique_value ::
  "string \<Rightarrow> archer \<Rightarrow> (error + pyval) \<times> archer" where
  "get_record_id_by_unique_value key_value st =
    (case map_of (key_field_value_to_system_id st) key_value of
       None \<Rightarrow> (Inl RecordNotFoundError, st)
     | Some rid \<Rightarrow> (Inr rid, st))"

definition add_record_id_to_mapping :: "string \<Rightarrow> pyval \<Rightarrow> string \<Rightarrow> archer \<Rightarrow> archer" where
  "add_record_id_to_mapping key_value system_id pfx st =
    st\<lparr>key_field_value_to_system_id :=
         AList.update (pfx @ key_value) system_id (key_field_value_to_system_id st)\<rparr>"

section \<open>Values on the wire\<close>

text \<open>\<open>str(i)\<close> of an integer: its decimal digits.\<close>

fun digits :: "nat \<Rightarrow> string" where
  "digits n =
    (if n < 10 then [''0123456789'' ! n]
     else digits (n div 10) @ [''0123456789'' ! (n mod 10)])"

definition str_int :: "int \<Rightarrow> string" where
  "str_int i = (if i < 0 then CHR ''-'' # digits (nat (- i)) else digits (nat i))"

definition key_val :: "key \<Rightarrow> pyval" where
  "key_val k = (case k of KStr s \<Rightarrow> PStr s | KInt i \<Rightarrow> PInt i)"

text \<open>\<open>x[k]\<close>: a dictionary raises KeyError on a missing key, a list or a string takes an
  integer index (negative ones count from the end) and raises IndexError out of range,
  everything else raises TypeError.\<close>

definition index :: "'a list \<Rightarrow> int \<Rightarrow> error + 'a" where
  "index xs i =
    (if 0 \<le> i \<and> i < int (length xs) then Inr (xs ! nat i)
     else if i < 0 \<and> - int (length xs) \<le> i then Inr (xs ! nat (int (length xs) + i))
     else Inl IndexError)"

fun getitem :: "pyval \<Rightarrow> key \<Rightarrow> error + pyval" where
  "getitem (PDict d) k = (case map_of d k of None \<Rightarrow> Inl KeyError | Some v \<Rightarrow> Inr v)"
| "getitem (PList xs) (KInt i) = index xs i"
| "getitem (PStr s) (KInt i) =
    (case index s i of Inl e \<Rightarrow> Inl e | Inr c \<Rightarrow> Inr (PStr [c]))"
| "getitem v k = Inl TypeError"

text \<open>\<open>for x in v\<close>, \<open>len(v)\<close> and \<open>s in v\<close> for a string \<open>s\<close>.\<close>

fun py_iter :: "pyval \<Rightarrow> error + pyval list" where
  "py_iter (PList xs) = Inr xs"
| "py_iter (PStr s) = Inr (map (\<lambda>c. PStr [c]) s)"
| "py_iter (PDict d) = Inr (map (key_val \<circ> fst) d)"
| "py_iter v = Inl TypeError"

fun py_len :: "pyval \<Rightarrow> error + nat" where
  "py_len (PList xs) = Inr (length xs)"
| "py_len (PStr s) = Inr (length s)"
| "py_len (PDict d) = Inr (length d)"
| "py_len v = Inl TypeError"

fun contains :: "pyval \<Rightarrow> string \<Rightarrow> error + bool" where
  "contains (PDict d) s = Inr (map_of d (KStr s) \<noteq> None)"
| "contains (PList xs) s = Inr (PStr s \<in> set xs)"
| "contains (PStr t) s = Inr (str_in s t)"
| "contains v s = Inl TypeError"

text \<open>
  The caches are typed as the source annotates them. Where a value of a response becomes a
  dictionary key or a typed cache entry, the model reads it at the annotated type; a JSON
  value of another type is outside the vendor's contract and stops the model with
  TypeError.
\<close>

definition as_str :: "pyval \<Rightarrow> error + string" where
  "as_str v = (case v of PStr s \<Rightarrow> Inr s | _ \<Rightarrow> Inl TypeError)"

definition as_int :: "pyval \<Rightarrow> error + int" where
  "as_int v = (case v of PInt i \<Rightarrow> Inr i | _ \<Rightarrow> Inl TypeError)"

definition entry_val :: "entry \<Rightarrow> pyval" where
  "entry_val e = (case e of Num i \<Rightarrow> PInt i | Def d \<Rightarrow> PDict d | Arr xs \<Rightarrow> PList (map PInt xs))"

text \<open>An entry used as a dictionary key (a dictionary or a list is not hashable), and
  \<open>dict(e)\<close> of an entry (an integer is not iterable, nor is an element of a list of
  integers).\<close>

definition entry_key :: "entry \<Rightarrow> error + key" where
  "entry_key e = (case e of Num i \<Rightarrow> Inr (KInt i) | _ \<Rightarrow> Inl TypeError)"

definition entry_dict :: "entry \<Rightarrow> error + (key \<times> pyval) list" where
  "entry_dict e =
    (case e of Def d \<Rightarrow> Inr d | Num i \<Rightarrow> Inl TypeError
     | Arr xs \<Rightarrow> (if xs = [] then Inr [] else Inl TypeError))"

section \<open>The HTTP layer\<close>

datatype verb = GET | POST | PUT | DELETE

record request =
  verb :: verb
  url :: string
  req_headers :: "(string \<times> string) list"
  json :: "pyval option"

text \<open>
  What one call of the HTTP client comes to: the call raises (a network error, a timeout),
  or there is a response on which \<open>raise_for_status()\<close> raises \<open>HTTPStatusError\<close>, or a
  response of good status whose body is this JSON value, or is not JSON.
\<close>

datatype reply = Raises error | Status_error | Json pyval | Not_json

text \<open>
  The trace of a run: the requests sent and the waits between attempts, in order. The
  server is any function of the trace so far and the request.
\<close>

datatype event = Sent request | Slept nat

type_synonym server = "event list \<Rightarrow> request \<Rightarrow> reply"

definition send :: "server \<Rightarrow> request \<Rightarrow> event list \<Rightarrow> reply \<times> event list" where
  "send srv r tr = (srv tr r, tr @ [Sent r])"

text \<open>\<open>response.raise_for_status(); data = response.json()\<close> inside
  \<open>try: ... except httpx.HTTPStatusError: raise translated\<close>.\<close>

definition decoded :: "error \<Rightarrow> reply \<Rightarrow> error + pyval" where
  "decoded translated rep =
    (case rep of Raises e \<Rightarrow> Inl e | Status_error \<Rightarrow> Inl translated
     | Not_json \<Rightarrow> Inl JSONDecodeError | Json data \<Rightarrow> Inr data)"

definition ensure_client :: "archer \<Rightarrow> archer" where
  "ensure_client st = (if client st then st else st\<lparr>client := True\<rparr>)"

definition close :: "archer \<Rightarrow> archer" where
  "close st = (if client st then st\<lparr>client := False\<rparr> else st)"

section \<open>Loading the field definitions\<close>

definition item_str :: "pyval \<Rightarrow> string \<Rightarrow> error + string" where
  "item_str obj k = (case getitem obj (KStr k) of Inl e \<Rightarrow> Inl e | Inr v \<Rightarrow> as_str v)"

definition item_int :: "pyval \<Rightarrow> string \<Rightarrow> error + int" where
  "item_int obj k = (case getitem obj (KStr k) of Inl e \<Rightarrow> Inl e | Inr v \<Rightarrow> as_int v)"

definition field_meta :: "pyval \<Rightarrow> int \<Rightarrow> entry" where
  "field_meta field_type field_id = Def [(KStr ''Type'', field_type), (KStr ''FieldId'', PInt field_id)]"

text \<open>The loop of lines 506-519 over the fields of a subform.\<close>

fun subform_fields_loop ::
  "pyval list \<Rightarrow> (key \<times> entry) list \<Rightarrow> int list \<Rightarrow> error + (key \<times> entry) list \<times> int list" where
  "subform_fields_loop [] subform_fields field_ids = Inr (subform_fields, field_ids)"
| "subform_fields_loop (field # rest) subform_fields field_ids =
    (case getitem field (KStr ''RequestedObject'') of
       Inl e \<Rightarrow> Inl e
     | Inr req_obj \<Rightarrow>
    (case item_str req_obj ''Name'' of
       Inl e \<Rightarrow> Inl e
     | Inr field_name \<Rightarrow>
    (case item_int req_obj ''Id'' of
       Inl e \<Rightarrow> Inl e
     | Inr field_id \<Rightarrow>
    (case getitem req_obj (KStr ''Type'') of
       Inl e \<Rightarrow> Inl e
     | Inr field_type \<Rightarrow>
    (case item_int req_obj ''LevelId'' of
       Inl e \<Rightarrow> Inl e
     | Inr level_id \<Rightarrow>
         subform_fields_loop rest
           (AList.update (KInt field_id) (field_meta field_type field_id)
             (AList.update (KStr ''LevelId'') (Num level_id)
               (AList.update (KStr field_name) (Num field_id) subform_fields)))
           (field_ids @ [field_id]))))))"

text \<open>\<open>get_subform_fields_by_id\<close> (lines 479-525).\<close>

definition get_subform_fields_by_id ::
  "server \<Rightarrow> int \<Rightarrow> archer \<Rightarrow> event list \<Rightarrow>
   (error + (key \<times> entry) list \<times> int list) \<times> archer \<times> event list" where
  "get_subform_fields_by_id srv subform_id st tr =
    (let st1 = ensure_client st;
         api_url = api_url_base st1 @ ''core/system/fielddefinition/application/'' @
                   str_int subform_id @ ''?$filter=IsActive eq true'';
         (rep, tr1) =
           send srv \<lparr>verb = GET, url = api_url, req_headers = headers st1, json = None\<rparr> tr
     in case decoded ArcherAPIError rep of
          Inl e \<Rightarrow> (Inl e, st1, tr1)
        | Inr data \<Rightarrow>
            (case py_iter data of
               Inl e \<Rightarrow> (Inl e, st1, tr1)
             | Inr rows \<Rightarrow> (subform_fields_loop rows [] [], st1, tr1)))"

text \<open>
  The loop of lines 449-470 over the fields of an application; \<open>level\<close> is the variable
  \<open>level_id\<close>, unbound until the first field is read.
\<close>

fun application_fields_loop ::
  "server \<Rightarrow> pyval list \<Rightarrow> int option \<Rightarrow> archer \<Rightarrow> event list \<Rightarrow>
   (error + int option) \<times> archer \<times> event list" where
  "application_fields_loop srv [] level st tr = (Inr level, st, tr)"
| "application_fields_loop srv (field # rest) level st tr =
    (case getitem field (KStr ''RequestedObject'') of
       Inl e \<Rightarrow> (Inl e, st, tr)
     | Inr req_obj \<Rightarrow>
    (case item_str req_obj ''Name'' of
       Inl e \<Rightarrow> (Inl e, st, tr)
     | Inr name \<Rightarrow>
    (case item_int req_obj ''Id'' of
       Inl e \<Rightarrow> (Inl e, st, tr)
     | Inr field_id \<Rightarrow>
    (case item_int req_obj ''LevelId'' of
       Inl e \<Rightarrow> (Inl e, st, tr)
     | Inr level_id \<Rightarrow>
    (case getitem req_obj (KStr ''Type'') of
       Inl e \<Rightarrow> (Inl e, st, tr)
     | Inr field_type \<Rightarrow>
        (let st1 = st\<lparr>all_application_fields_array :=
                         all_application_fields_array st @ [field_id],
                       application_fields_json :=
                         AList.update (KInt field_id) (field_meta field_type field_id)
                           (AList.update (KStr name) (Num field_id)
                              (application_fields_json st))\<rparr>
         in if field_type = PInt 4
            then (case item_int req_obj ''RelatedValuesListId'' of
                    Inl e \<Rightarrow> (Inl e, st1, tr)
                  | Inr vl_id \<Rightarrow>
                      application_fields_loop srv rest (Some level_id)
                        (st1\<lparr>vl_name_to_vl_id :=
                               AList.update name vl_id (vl_name_to_vl_id st1)\<rparr>) tr)
            else if field_type = PInt 24
            then (case item_int req_obj ''RelatedSubformId'' of
                    Inl e \<Rightarrow> (Inl e, st1, tr)
                  | Inr subform_id \<Rightarrow>
                      (case get_subform_fields_by_id srv subform_id st1 tr of
                         (Inl e, st2, tr2) \<Rightarrow> (Inl e, st2, tr2)
                       | (Inr (subform_fields, all_fields), st2, tr2) \<Rightarrow>
                           application_fields_loop srv rest (Some level_id)
                             (st2\<lparr>subforms_json_by_sf_name :=
                                    AList.update name
                                      (AList.update (KStr ''AllFields'') (Arr all_fields)
                                         subform_fields)
                                      (subforms_json_by_sf_name st2)\<rparr>) tr2))
            else application_fields_loop srv rest (Some level_id) st1 tr))))))"

text \<open>\<open>get_application_fields\<close> (lines 431-477).\<close>

definition get_application_fields ::
  "server \<Rightarrow> int \<Rightarrow> archer \<Rightarrow> event list \<Rightarrow> (error + unit) \<times> archer \<times> event list" where
  "get_application_fields srv application_id st tr =
    (let st1 = ensure_client st;
         api_url = api_url_base st1 @ ''core/system/fielddefinition/application/'' @
                   str_int application_id @ ''?$filter=IsActive eq true'';
         (rep, tr1) =
           send srv \<lparr>verb = GET, url = api_url, req_headers = headers st1, json = None\<rparr> tr
     in case decoded ArcherAPIError rep of
          Inl e \<Rightarrow> (Inl e, st1, tr1)
        | Inr data \<Rightarrow>
            (case py_iter data of
               Inl e \<Rightarrow> (Inl e, st1, tr1)
             | Inr rows \<Rightarrow>
                 (case application_fields_loop srv rows None st1 tr1 of
                    (Inl e, st2, tr2) \<Rightarrow> (Inl e, st2, tr2)
                  | (Inr None, st2, tr2) \<Rightarrow> (Inl UnboundLocalError, st2, tr2)
                  | (Inr (Some level_id), st2, tr2) \<Rightarrow>
                      (Inr (), st2\<lparr>application_level_id := str_int level_id\<rparr>, tr2))))"

section \<open>Content records\<close>

text \<open>\<open>get_field_id_by_name\<close> (lines 586-610): both lookups stand inside
  \<open>try: ... except KeyError: raise FieldNotFoundError\<close>.\<close>

definition get_field_id_by_name :: "string \<Rightarrow> string option \<Rightarrow> archer \<Rightarrow> error + entry" where
  "get_field_id_by_name field_name subform_name st =
    (if truthy_str subform_name
     then (case map_of (subforms_json_by_sf_name st) (the subform_name) of
             None \<Rightarrow> Inl FieldNotFoundError
           | Some sf \<Rightarrow>
               (case map_of sf (KStr field_name) of
                  None \<Rightarrow> Inl FieldNotFoundError
                | Some e \<Rightarrow> Inr e))
     else (case map_of (application_fields_json st) (KStr field_name) of
             None \<Rightarrow> Inl FieldNotFoundError
           | Some e \<Rightarrow> Inr e))"

text \<open>\<open>_prepare_field_value\<close> (lines 612-625).\<close>

definition prepare_field_value ::
  "entry \<Rightarrow> pyval \<Rightarrow> archer \<Rightarrow> error + (key \<times> pyval) list" where
  "prepare_field_value field_id value_content st =
    (case entry_key field_id of
       Inl e \<Rightarrow> Inl e
     | Inr k \<Rightarrow>
         (case map_of (application_fields_json st) k of
            None \<Rightarrow> Inl KeyError
          | Some cached \<Rightarrow>
              (case entry_dict cached of
                 Inl e \<Rightarrow> Inl e
               | Inr field_def \<Rightarrow> Inr (AList.update (KStr ''Value'') value_content field_def))))"

text \<open>The loop of lines 646-649 over \<open>fields_json.items()\<close>.\<close>

fun transform_fields ::
  "archer \<Rightarrow> (string \<times> pyval) list \<Rightarrow> (key \<times> pyval) list \<Rightarrow> error + (key \<times> pyval) list" where
  "transform_fields st [] transformed_json = Inr transformed_json"
| "transform_fields st ((field_name, v) # rest) transformed_json =
    (case get_field_id_by_name field_name None st of
       Inl e \<Rightarrow> Inl e
     | Inr field_id \<Rightarrow>
         (case prepare_field_value field_id v st of
            Inl e \<Rightarrow> Inl e
          | Inr field_def \<Rightarrow>
              (case entry_key field_id of
                 Inl e \<Rightarrow> Inl e
               | Inr k \<Rightarrow>
                   transform_fields st rest (AList.update k (PDict field_def) transformed_json))))"

text \<open>\<open>data["RequestedObject"]["Id"]\<close>.\<close>

definition requested_id :: "pyval \<Rightarrow> error + pyval" where
  "requested_id data =
    (case getitem data (KStr ''RequestedObject'') of
       Inl e \<Rightarrow> Inl e
     | Inr obj \<Rightarrow> getitem obj (KStr ''Id''))"

text \<open>\<open>create_content_record\<close> (lines 627-691).\<close>

definition create_content_record ::
  "server \<Rightarrow> (string \<times> pyval) list \<Rightarrow> int option \<Rightarrow> archer \<Rightarrow> event list \<Rightarrow>
   (error + pyval) \<times> archer \<times> event list" where
  "create_content_record srv fields_json record_id st tr =
    (let st1 = ensure_client st;
         api_url = api_url_base st1 @ ''core/content/''
     in case transform_fields st1 fields_json [] of
          Inl e \<Rightarrow> (Inl e, st1, tr)
        | Inr transformed_json \<Rightarrow>
            (let r =
                   (if truthy_int record_id
                    then \<lparr>verb = PUT, url = api_url,
                          req_headers =
                            AList.update ''X-Http-Method-Override'' ''PUT'' (headers st1),
                          json = Some (PDict [(KStr ''Content'',
                            PDict [(KStr ''Id'', PInt (the record_id)),
                                   (KStr ''LevelId'', PStr (application_level_id st1)),
                                   (KStr ''FieldContents'', PDict transformed_json)])])\<rparr>
                    else \<lparr>verb = POST, url = api_url,
                          req_headers =
                            AList.update ''X-Http-Method-Override'' ''POST'' (headers st1),
                          json = Some (PDict [(KStr ''Content'',
                            PDict [(KStr ''LevelId'', PStr (application_level_id st1)),
                                   (KStr ''FieldContents'', PDict transformed_json)])])\<rparr>);
                 (rep, tr1) = send srv r tr
             in case decoded ArcherAPIError rep of
                  Inl e \<Rightarrow> (Inl e, st1, tr1)
                | Inr data \<Rightarrow> (requested_id data, st1, tr1)))"

text \<open>\<open>update_content_record\<close> (lines 810-825).\<close>

definition update_content_record ::
  "server \<Rightarrow> (string \<times> pyval) list \<Rightarrow> int \<Rightarrow> archer \<Rightarrow> event list \<Rightarrow>
   (error + pyval) \<times> archer \<times> event list" where
  "update_content_record srv updated_json record_id st tr =
    create_content_record srv updated_json (Some record_id) st tr"

section \<open>Subform records\<close>

text \<open>\<open>self.subforms_json_by_sf_name[subform_name][k]\<close>, outside any \<open>try\<close>.\<close>

definition subform_item :: "archer \<Rightarrow> string \<Rightarrow> key \<Rightarrow> error + entry" where
  "subform_item st subform_name k =
    (case map_of (subforms_json_by_sf_name st) subform_name of
       None \<Rightarrow> Inl KeyError
     | Some sf \<Rightarrow> (case map_of sf k of None \<Rightarrow> Inl KeyError | Some e \<Rightarrow> Inr e))"

text \<open>The loop of lines 715-720.\<close>

fun transform_sub_fields ::
  "archer \<Rightarrow> string \<Rightarrow> (string \<times> pyval) list \<Rightarrow> (key \<times> pyval) list \<Rightarrow>
   error + (key \<times> pyval) list" where
  "transform_sub_fields st subform_name [] transformed_json = Inr transformed_json"
| "transform_sub_fields st subform_name ((field_name, v) # rest) transformed_json =
    (case subform_item st subform_name (KStr field_name) of
       Inl e \<Rightarrow> Inl e
     | Inr field_id \<Rightarrow>
         (case entry_key field_id of
            Inl e \<Rightarrow> Inl e
          | Inr k \<Rightarrow>
              (case subform_item st subform_name k of
                 Inl e \<Rightarrow> Inl e
               | Inr cached \<Rightarrow>
                   (case entry_dict cached of
                      Inl e \<Rightarrow> Inl e
                    | Inr field_def \<Rightarrow>
                        transform_sub_fields st subform_name rest
                          (AList.update k
                             (PDict (AList.update (KStr ''Value'') v field_def))
                             transformed_json)))))"

text \<open>\<open>create_sub_record\<close> (lines 693-744).\<close>

definition create_sub_record ::
  "server \<Rightarrow> (string \<times> pyval) list \<Rightarrow> string \<Rightarrow> archer \<Rightarrow> event list \<Rightarrow>
   (error + pyval) \<times> archer \<times> event list" where
  "create_sub_record srv fields_json subform_name st tr =
    (let st1 = ensure_client st;
         api_url = api_url_base st1 @ ''core/content/''
     in case get_field_id_by_name subform_name None st1 of
          Inl e \<Rightarrow> (Inl e, st1, tr)
        | Inr subform_field_id \<Rightarrow>
      (case subform_item st1 subform_name (KStr ''LevelId'') of
          Inl e \<Rightarrow> (Inl e, st1, tr)
        | Inr subform_level_id \<Rightarrow>
      (case transform_sub_fields st1 subform_name fields_json [] of
          Inl e \<Rightarrow> (Inl e, st1, tr)
        | Inr transformed_json \<Rightarrow>
            (let r = \<lparr>verb = POST, url = api_url,
                      req_headers =
                        AList.update ''X-Http-Method-Override'' ''POST'' (headers st1),
                      json = Some (PDict
                        [(KStr ''Content'',
                          PDict [(KStr ''LevelId'', entry_val subform_level_id),
                                 (KStr ''FieldContents'', PDict transformed_json)]),
                         (KStr ''SubformFieldId'', entry_val subform_field_id)])\<rparr>;
                 (rep, tr1) = send srv r tr
             in case decoded ArcherAPIError rep of
                  Inl e \<Rightarrow> (Inl e, st1, tr1)
                | Inr data \<Rightarrow> (requested_id data, st1, tr1)))))"

text \<open>
  The tail shared by \<open>get_record\<close> and \<open>get_sub_record\<close> (lines 853-856, 891-894). The
  class \<open>Record\<close> comes from a module that is not part of the sources; its constructor
  is the parameter \<open>mk_record\<close>.
\<close>

definition first_record ::
  "(archer \<Rightarrow> pyval \<Rightarrow> error + 'r) \<Rightarrow> archer \<Rightarrow> pyval \<Rightarrow> error + 'r" where
  "first_record mk_record st data =
    (if \<not> truthy data then Inl RecordNotFoundError
     else case getitem data (KInt 0) of
            Inl e \<Rightarrow> Inl e
          | Inr item \<Rightarrow>
              (case getitem item (KStr ''RequestedObject'') of
                 Inl e \<Rightarrow> Inl e
               | Inr obj \<Rightarrow> mk_record st obj))"

text \<open>\<open>get_sub_record\<close> (lines 862-898).\<close>

definition get_sub_record ::
  "server \<Rightarrow> (archer \<Rightarrow> pyval \<Rightarrow> error + 'r) \<Rightarrow> int \<Rightarrow> string \<Rightarrow> archer \<Rightarrow> event list \<Rightarrow>
   (error + 'r) \<times> archer \<times> event list" where
  "get_sub_record srv mk_record sub_record_id sub_record_name st tr =
    (let st1 = ensure_client st;
         api_url = api_url_base st1 @ ''core/content/fieldcontent/''
     in case subform_item st1 sub_record_name (KStr ''AllFields'') of
          Inl e \<Rightarrow> (Inl e, st1, tr)
        | Inr all_fields \<Rightarrow>
            (let r = \<lparr>verb = POST, url = api_url,
                      req_headers =
                        AList.update ''X-Http-Method-Override'' ''POST'' (headers st1),
                      json = Some (PDict
                        [(KStr ''FieldIds'', entry_val all_fields),
                         (KStr ''ContentIds'', PList [PStr (str_int sub_record_id)])])\<rparr>;
                 (rep, tr1) = send srv r tr
             in case decoded ArcherAPIError rep of
                  Inl e \<Rightarrow> (Inl e, st1, tr1)
                | Inr data \<Rightarrow> (first_record mk_record st1 data, st1, tr1)))"

section \<open>Paginated records of the content API\<close>

text \<open>\<open>get_grc_endpoint_records\<close> (lines 939-969).\<close>

definition get_grc_endpoint_records ::
  "server \<Rightarrow> string \<Rightarrow> int option \<Rightarrow> archer \<Rightarrow> event list \<Rightarrow>
   (error + pyval) \<times> archer \<times> event list" where
  "get_grc_endpoint_records srv endpoint_url skip st tr =
    (let st1 = ensure_client st;
         api_url = content_api_url_base st1 @ endpoint_url @
           (case skip of None \<Rightarrow> [] | Some n \<Rightarrow> ''?$skip='' @ str_int n);
         (rep, tr1) =
           send srv \<lparr>verb = GET, url = api_url, req_headers = headers st1, json = None\<rparr> tr
     in case decoded ArcherAPIError rep of
          Inl e \<Rightarrow> (Inl e, st1, tr1)
        | Inr data \<Rightarrow> (getitem data (KStr ''value''), st1, tr1))"

text \<open>
  The \<open>while\<close> loop of lines 994-1010, with its three variables \<open>skip\<close>,
  \<open>consecutive_full_batches\<close> and \<open>all_records\<close>. The loop ends with the records
  gathered, or with the exception of a request or of \<open>all_records.extend(batch)\<close>.
\<close>

function fetch_batches ::
  "server \<Rightarrow> string \<Rightarrow> int \<Rightarrow> int \<Rightarrow> int \<Rightarrow> pyval list \<Rightarrow> archer \<Rightarrow> event list \<Rightarrow>
   (error + pyval list) \<times> archer \<times> event list" where
  "fetch_batches srv endpoint_url max_records skip consecutive_full_batches all_records st tr =
    (if skip < max_records
     then (case get_grc_endpoint_records srv endpoint_url (Some skip) st tr of
             (Inl e, st1, tr1) \<Rightarrow> (Inl e, st1, tr1)
           | (Inr batch, st1, tr1) \<Rightarrow>
               (if \<not> truthy batch then (Inr all_records, st1, tr1)
                else case py_iter batch of
                       Inl e \<Rightarrow> (Inl e, st1, tr1)
                     | Inr items \<Rightarrow>
                         (case py_len batch of
                            Inl e \<Rightarrow> (Inl e, st1, tr1)
                          | Inr n \<Rightarrow>
                              (if n = 1000
                               then (if consecutive_full_batches + 1 > 21
                                     then (Inr (all_records @ items), st1, tr1)
                                     else fetch_batches srv endpoint_url max_records
                                            (skip + 1000) (consecutive_full_batches + 1)
                                            (all_records @ items) st1 tr1)
                               else (Inr (all_records @ items), st1, tr1)))))
     else (Inr all_records, st, tr))"
  by pat_completeness auto
termination
  by (relation "measure (\<lambda>(srv, endpoint_url, max_records, skip, rest). nat (max_records - skip))")
     auto

text \<open>
  The loop of lines 1013-1017 over \<open>all_records\<close>, writing into
  \<open>key_field_value_to_system_id\<close>; an exception leaves the entries written so far.
  \<open>fmt\<close> is the text an f-string gives a value (Python's \<open>format\<close>).
\<close>

fun build_mapping ::
  "(pyval \<Rightarrow> string) \<Rightarrow> string \<Rightarrow> string \<Rightarrow> string \<Rightarrow> pyval list \<Rightarrow>
   (string \<times> pyval) list \<Rightarrow> error option \<times> (string \<times> pyval) list" where
  "build_mapping fmt endpoint_url key_value_field pfx [] m = (None, m)"
| "build_mapping fmt endpoint_url key_value_field pfx (rec # rest) m =
    (case contains rec key_value_field of
       Inl e \<Rightarrow> (Some e, m)
     | Inr False \<Rightarrow> build_mapping fmt endpoint_url key_value_field pfx rest m
     | Inr True \<Rightarrow>
         (case getitem rec (KStr key_value_field) of
            Inl e \<Rightarrow> (Some e, m)
          | Inr v \<Rightarrow>
              (case getitem rec (KStr (endpoint_url @ ''_Id'')) of
                 Inl e \<Rightarrow> (Some e, m)
               | Inr system_id \<Rightarrow>
                   build_mapping fmt endpoint_url key_value_field pfx rest
                     (AList.update (pfx @ fmt v) system_id m))))"

text \<open>\<open>build_unique_value_to_id_mapping\<close> (lines 971-1022).\<close>

definition build_unique_value_to_id_mapping ::
  "server \<Rightarrow> (pyval \<Rightarrow> string) \<Rightarrow> string \<Rightarrow> string \<Rightarrow> string \<Rightarrow> int \<Rightarrow> archer \<Rightarrow> event list \<Rightarrow>
   (error + (string \<times> pyval) list) \<times> archer \<times> event list" where
  "build_unique_value_to_id_mapping srv fmt endpoint_url key_value_field pfx max_records st tr =
    (case fetch_batches srv endpoint_url max_records 0 0 [] st tr of
       (Inl e, st1, tr1) \<Rightarrow> (Inl e, st1, tr1)
     | (Inr all_records, st1, tr1) \<Rightarrow>
         (case build_mapping fmt endpoint_url key_value_field pfx all_records
                 (key_field_value_to_system_id st1) of
            (Some e, m) \<Rightarrow> (Inl e, st1\<lparr>key_field_value_to_system_id := m\<rparr>, tr1)
          | (None, m) \<Rightarrow> (Inr m, st1\<lparr>key_field_value_to_system_id := m\<rparr>, tr1)))"

section \<open>The model-call wrapper\<close>

text \<open>
  \<open>BaseAgent.call_llm\<close> (\<^verbatim>\<open>base_agent.py\<close>, lines 19-32). \<open>create\<close> is
  \<open>client.chat.completions.create\<close>: it raises, or answers with the contents of the
  messages of its choices, in order. The client is \<open>openai.OpenAI\<close> (line 12), whose
  \<open>create\<close> is an ordinary function and returns the completion itself; line 26 applies
  \<open>await\<close> to what it returns, and \<open>await\<close> of a completion raises \<open>TypeError\<close>. So
  the request is made, and line 32, which would return the content of the first choice,
  is never reached. The second component of the result is the list of the calls made.
\<close>

record message =
  role :: string
  content :: string

record completion_call =
  model :: string
  messages :: "message list"
  temperature :: real

definition call_llm ::
  "(completion_call \<Rightarrow> error + 'c list) \<Rightarrow> string \<Rightarrow> string option \<Rightarrow>
   (error + 'c) \<times> completion_call list" where
  "call_llm create prompt system_prompt =
    (let msgs0 = (if truthy_str system_prompt
                  then [\<lparr>role = ''system'', content = the system_prompt\<rparr>] else []);
         msgs = msgs0 @ [\<lparr>role = ''user'', content = prompt\<rparr>];
         call = \<lparr>model = ''gpt-4o'', messages = msgs, temperature = 7 / 10\<rparr>
     in case create call of
          Inl e \<Rightarrow> (Inl e, [call])
        | Inr choices \<Rightarrow> (Inl TypeError, [call]))"

section \<open>Session tokens\<close>

text \<open>
  The body of \<open>get_session_token\<close> (lines 217-251), one attempt. The exceptions of the
  \<open>try\<close> block are translated as its \<open>except\<close> clauses say (\<open>login_except\<close>):
  \<open>HTTPStatusError\<close>, \<open>KeyError\<close> and \<open>TypeError\<close> become \<open>AuthenticationError\<close>, every
  other one passes. The token is read at its annotated type \<open>str\<close>.
\<close>

definition login_request :: "archer \<Rightarrow> auth_credentials \<Rightarrow> request" where
  "login_request st creds =
    \<lparr>verb = POST, url = api_url_base st @ ''core/security/login'',
     req_headers =
       [(''Accept'',
         ''application/json,text/html,application/xhtml+xml,application/xml;q=0.9,*/*;q=0.8''),
        (''Content-Type'', ''application/json'')],
     json = Some (PDict
       [(KStr ''InstanceName'', PStr (cred_instance_name creds)),
        (KStr ''Username'', PStr (cred_username creds)),
        (KStr ''UserDomain'', PStr (cred_user_domain creds)),
        (KStr ''Password'', PStr (cred_password creds))])\<rparr>"

definition session_token_of :: "pyval \<Rightarrow> error + pyval" where
  "session_token_of data =
    (case getitem data (KStr ''RequestedObject'') of
       Inl e \<Rightarrow> Inl e
     | Inr obj \<Rightarrow> getitem obj (KStr ''SessionToken''))"

definition login_except :: "error \<Rightarrow> error" where
  "login_except e = (if e = KeyError \<or> e = TypeError then AuthenticationError else e)"

definition get_session_token_attempt ::
  "server \<Rightarrow> archer \<Rightarrow> event list \<Rightarrow> (error + string) \<times> archer \<times> event list" where
  "get_session_token_attempt srv st tr =
    (case credentials st of
       None \<Rightarrow> (Inl AuthenticationError, st, tr)
     | Some creds \<Rightarrow>
         (let st1 = ensure_client st;
              (rep, tr1) = send srv (login_request st1 creds) tr
          in case decoded AuthenticationError rep of
               Inl e \<Rightarrow> (Inl (login_except e), st1, tr1)
             | Inr data \<Rightarrow>
                 (case session_token_of data of
                    Inl e \<Rightarrow> (Inl (login_except e), st1, tr1)
                  | Inr v \<Rightarrow>
                      (case as_str v of
                         Inl e \<Rightarrow> (Inl e, st1, tr1)
                       | Inr token \<Rightarrow>
                           (Inr token, st1\<lparr>session_token := Some token\<rparr>, tr1)))))"

text \<open>
  The decorator of \<open>get_session_token\<close> (lines 201-206):
  \<open>retry(stop=stop_after_attempt(3), wait=wait_exponential(multiplier=1, min=2, max=10),
  retry=retry_if_exception_type(httpx.NetworkError), reraise=True)\<close>. An attempt that
  raises a network error is followed, after the wait of the policy, by the next attempt,
  until the attempts are used up; then the last exception is raised again. \<open>Slept k\<close> is
  the wait that follows the attempt \<open>k\<close>; its length is the library's matter.
\<close>

fun retrying ::
  "nat \<Rightarrow> nat \<Rightarrow> (archer \<Rightarrow> event list \<Rightarrow> (error + 'a) \<times> archer \<times> event list) \<Rightarrow>
   archer \<Rightarrow> event list \<Rightarrow> (error + 'a) \<times> archer \<times> event list" where
  "retrying 0 attempt f st tr = f st tr"
| "retrying (Suc left) attempt f st tr =
    (case f st tr of
       (Inl e, st1, tr1) \<Rightarrow>
         (if e = NetworkError then retrying left (Suc attempt) f st1 (tr1 @ [Slept attempt])
          else (Inl e, st1, tr1))
     | (Inr v, st1, tr1) \<Rightarrow> (Inr v, st1, tr1))"

definition get_session_token ::
  "server \<Rightarrow> archer \<Rightarrow> event list \<Rightarrow> (error + string) \<times> archer \<times> event list" where
  "get_session_token srv st tr = retrying 2 1 (get_session_token_attempt srv) st tr"

text \<open>\<open>__aenter__\<close> and \<open>__aexit__\<close> (lines 165-174).\<close>

definition aenter :: "server \<Rightarrow> archer \<Rightarrow> event list \<Rightarrow> (error + unit) \<times> archer \<times> event list" where
  "aenter srv st tr =
    (let st1 = ensure_client st
     in if \<not> truthy_str (session_token st1)
        then (case get_session_token srv st1 tr of
                (Inl e, st2, tr2) \<Rightarrow> (Inl e, st2, tr2)
              | (Inr token, st2, tr2) \<Rightarrow> (Inr (), st2, tr2))
        else (Inr (), st1, tr))"

definition aexit :: "archer \<Rightarrow> archer" where
  "aexit st = close st"

section \<open>Users, groups and applications\<close>

text \<open>
  The class \<open>User\<close> comes from a module that is not part of the sources; its constructor
  is the parameter \<open>mk_user\<close>. \<open>[User(self, user) for user in data]\<close> stops at the first
  exception.
\<close>

fun users_of :: "(archer \<Rightarrow> pyval \<Rightarrow> error + 'u) \<Rightarrow> archer \<Rightarrow> pyval list \<Rightarrow> error + 'u list" where
  "users_of mk_user st [] = Inr []"
| "users_of mk_user st (user # rest) =
    (case mk_user st user of
       Inl e \<Rightarrow> Inl e
     | Inr u \<Rightarrow> (case users_of mk_user st rest of Inl e \<Rightarrow> Inl e | Inr us \<Rightarrow> Inr (u # us)))"

text \<open>\<open>get_users\<close> (lines 253-276).\<close>

definition get_users ::
  "server \<Rightarrow> (archer \<Rightarrow> pyval \<Rightarrow> error + 'u) \<Rightarrow> string \<Rightarrow> archer \<Rightarrow> event list \<Rightarrow>
   (error + 'u list) \<times> archer \<times> event list" where
  "get_users srv mk_user params st tr =
    (let st1 = ensure_client st;
         api_url = api_url_base st1 @ ''core/system/user/'' @ params;
         (rep, tr1) =
           send srv \<lparr>verb = POST, url = api_url, req_headers = headers st1, json = None\<rparr> tr
     in case decoded ArcherAPIError rep of
          Inl e \<Rightarrow> (Inl e, st1, tr1)
        | Inr data \<Rightarrow>
            (case py_iter data of
               Inl e \<Rightarrow> (Inl e, st1, tr1)
             | Inr users \<Rightarrow> (users_of mk_user st1 users, st1, tr1)))"

text \<open>\<open>get_active_users_with_no_login\<close> (lines 381-391).\<close>

definition get_active_users_with_no_login ::
  "server \<Rightarrow> (archer \<Rightarrow> pyval \<Rightarrow> error + 'u) \<Rightarrow> archer \<Rightarrow> event list \<Rightarrow>
   (error + 'u list) \<times> archer \<times> event list" where
  "get_active_users_with_no_login srv mk_user st tr =
    get_users srv mk_user
      (''?$select=Id,UserName,DisplayName&$filter=AccountStatus eq '' @ [CHR 0x27] @ ''1'' @
       [CHR 0x27] @ '' and LastLoginDate eq null&$orderby=LastName'') st tr"

text \<open>\<open>get_user_by_id\<close> (lines 357-379).\<close>

definition get_user_by_id ::
  "server \<Rightarrow> (archer \<Rightarrow> pyval \<Rightarrow> error + 'u) \<Rightarrow> int \<Rightarrow> archer \<Rightarrow> event list \<Rightarrow>
   (error + 'u) \<times> archer \<times> event list" where
  "get_user_by_id srv mk_user user_id st tr =
    (let st1 = ensure_client st;
         api_url = api_url_base st1 @ ''core/system/user/'' @ str_int user_id;
         (rep, tr1) =
           send srv \<lparr>verb = POST, url = api_url, req_headers = headers st1, json = None\<rparr> tr
     in case decoded ArcherAPIError rep of
          Inl e \<Rightarrow> (Inl e, st1, tr1)
        | Inr data \<Rightarrow> (mk_user st1 data, st1, tr1))"

text \<open>The dictionary comprehension of lines 293-296.\<close>

fun groups_of :: "pyval list \<Rightarrow> (string \<times> int) list \<Rightarrow> error + (string \<times> int) list" where
  "groups_of [] acc = Inr acc"
| "groups_of (grp # rest) acc =
    (case getitem grp (KStr ''RequestedObject'') of
       Inl e \<Rightarrow> Inl e
     | Inr obj \<Rightarrow>
    (case item_str obj ''Name'' of
       Inl e \<Rightarrow> Inl e
     | Inr name \<Rightarrow>
    (case getitem grp (KStr ''RequestedObject'') of
       Inl e \<Rightarrow> Inl e
     | Inr obj2 \<Rightarrow>
    (case item_int obj2 ''Id'' of
       Inl e \<Rightarrow> Inl e
     | Inr gid \<Rightarrow> groups_of rest (AList.update name gid acc)))))"

text \<open>\<open>get_all_groups\<close> (lines 278-303).\<close>

definition get_all_groups ::
  "server \<Rightarrow> archer \<Rightarrow> event list \<Rightarrow> (error + (string \<times> int) list) \<times> archer \<times> event list" where
  "get_all_groups srv st tr =
    (let st1 = ensure_client st;
         api_url = api_url_base st1 @ ''core/system/group/'';
         (rep, tr1) =
           send srv \<lparr>verb = POST, url = api_url, req_headers = headers st1, json = None\<rparr> tr
     in case decoded ArcherAPIError rep of
          Inl e \<Rightarrow> (Inl e, st1, tr1)
        | Inr data \<Rightarrow>
            (case py_iter data of
               Inl e \<Rightarrow> (Inl e, st1, tr1)
             | Inr grps \<Rightarrow>
                 (case groups_of grps [] of
                    Inl e \<Rightarrow> (Inl e, st1, tr1)
                  | Inr d \<Rightarrow> (Inr d, st1\<lparr>archer_groups_name_to_id := d\<rparr>, tr1))))"

text \<open>The loop of lines 414-419 over the applications, and \<open>from_application\<close>
  (lines 393-429).\<close>

fun find_application ::
  "server \<Rightarrow> string \<Rightarrow> pyval list \<Rightarrow> archer \<Rightarrow> event list \<Rightarrow>
   (error + unit) \<times> archer \<times> event list" where
  "find_application srv app_name [] st tr = (Inl ApplicationNotFoundError, st, tr)"
| "find_application srv app_name (application # rest) st tr =
    (case getitem application (KStr ''RequestedObject'') of
       Inl e \<Rightarrow> (Inl e, st, tr)
     | Inr obj \<Rightarrow>
    (case getitem obj (KStr ''Name'') of
       Inl e \<Rightarrow> (Inl e, st, tr)
     | Inr name \<Rightarrow>
         (if name = PStr app_name
          then (case getitem application (KStr ''RequestedObject'') of
                  Inl e \<Rightarrow> (Inl e, st, tr)
                | Inr obj2 \<Rightarrow>
                    (case item_int obj2 ''Id'' of
                       Inl e \<Rightarrow> (Inl e, st, tr)
                     | Inr application_id \<Rightarrow> get_application_fields srv application_id st tr))
          else find_application srv app_name rest st tr)))"

definition from_application ::
  "server \<Rightarrow> string \<Rightarrow> archer \<Rightarrow> event list \<Rightarrow> (error + unit) \<times> archer \<times> event list" where
  "from_application srv app_name st tr =
    (let st1 = ensure_client st;
         api_url = api_url_base st1 @ ''core/system/application/'';
         (rep, tr1) =
           send srv \<lparr>verb = GET, url = api_url, req_headers = headers st1, json = None\<rparr> tr
     in case decoded ArcherAPIError rep of
          Inl e \<Rightarrow> (Inl e, st1, tr1)
        | Inr data \<Rightarrow>
            (case py_iter data of
               Inl e \<Rightarrow> (Inl e, st1, tr1)
             | Inr applications \<Rightarrow> find_application srv app_name applications st1 tr1))"

section \<open>Values lists, records and attachments\<close>

text \<open>The loop of lines 574-580, and \<open>get_value_id_by_field_name_and_value\<close>
  (lines 544-584).\<close>

fun find_value :: "string \<Rightarrow> pyval list \<Rightarrow> error + pyval list" where
  "find_value v [] = Inl FieldNotFoundError"
| "find_value v (ind_value # rest) =
    (case getitem ind_value (KStr ''RequestedObject'') of
       Inl e \<Rightarrow> Inl e
     | Inr obj \<Rightarrow>
    (case getitem obj (KStr ''Name'') of
       Inl e \<Rightarrow> Inl e
     | Inr name \<Rightarrow>
         (if name = PStr v
          then (case getitem ind_value (KStr ''RequestedObject'') of
                  Inl e \<Rightarrow> Inl e
                | Inr obj2 \<Rightarrow>
                    (case getitem obj2 (KStr ''Id'') of
                       Inl e \<Rightarrow> Inl e
                     | Inr value_id \<Rightarrow> Inr [value_id]))
          else find_value v rest)))"

definition get_value_id_by_field_name_and_value ::
  "server \<Rightarrow> string \<Rightarrow> string \<Rightarrow> archer \<Rightarrow> event list \<Rightarrow>
   (error + pyval list) \<times> archer \<times> event list" where
  "get_value_id_by_field_name_and_value srv field_name v st tr =
    (case fst (get_vl_id_by_field_name field_name st) of
       Inl e \<Rightarrow> (Inl e, st, tr)
     | Inr values_list_id \<Rightarrow>
         (let st1 = ensure_client st;
              api_url = api_url_base st1 @ ''core/system/valueslistvalue/flat/valueslist/'' @
                        str_int values_list_id;
              (rep, tr1) =
                send srv \<lparr>verb = GET, url = api_url, req_headers = headers st1, json = None\<rparr> tr
          in case decoded ArcherAPIError rep of
               Inl e \<Rightarrow> (Inl e, st1, tr1)
             | Inr data \<Rightarrow>
                 (case py_iter data of
                    Inl e \<Rightarrow> (Inl e, st1, tr1)
                  | Inr vals \<Rightarrow> (find_value v vals, st1, tr1))))"

text \<open>\<open>delete_record\<close> (lines 746-773). The request is built and handed to
  \<open>self._client.delete(api_url, headers=headers, json=body)\<close>; the \<open>delete\<close> of the HTTP
  client takes no \<open>json\<close> argument, so the call raises \<open>TypeError\<close> before anything is
  sent, and \<open>TypeError\<close> is not among the exceptions the \<open>try\<close> translates.\<close>

definition delete_record ::
  "server \<Rightarrow> int \<Rightarrow> archer \<Rightarrow> event list \<Rightarrow> (error + unit) \<times> archer \<times> event list" where
  "delete_record srv record_id st tr =
    (let st1 = ensure_client st
     in (Inl TypeError, st1, tr))"

text \<open>\<open>post_attachment\<close> (lines 775-808).\<close>

definition post_attachment ::
  "server \<Rightarrow> string \<Rightarrow> string \<Rightarrow> archer \<Rightarrow> event list \<Rightarrow>
   (error + pyval) \<times> archer \<times> event list" where
  "post_attachment srv name base64_string st tr =
    (let st1 = ensure_client st;
         api_url = api_url_base st1 @ ''core/content/attachment'';
         (rep, tr1) =
           send srv
             \<lparr>verb = POST, url = api_url,
              req_headers = AList.update ''X-Http-Method-Override'' ''POST'' (headers st1),
              json = Some (PDict [(KStr ''AttachmentName'', PStr name),
                                  (KStr ''AttachmentBytes'', PStr base64_string)])\<rparr> tr
     in case decoded ArcherAPIError rep of
          Inl e \<Rightarrow> (Inl e, st1, tr1)
        | Inr data \<Rightarrow> (requested_id data, st1, tr1))"

text \<open>\<open>get_record\<close> (lines 827-860).\<close>

definition get_record ::
  "server \<Rightarrow> (archer \<Rightarrow> pyval \<Rightarrow> error + 'r) \<Rightarrow> int \<Rightarrow> archer \<Rightarrow> event list \<Rightarrow>
   (error + 'r) \<times> archer \<times> event list" where
  "get_record srv mk_record record_id st tr =
    (let st1 = ensure_client st;
         api_url = api_url_base st1 @ ''core/content/fieldcontent/'';
         (rep, tr1) =
           send srv
             \<lparr>verb = POST, url = api_url,
              req_headers = AList.update ''X-Http-Method-Override'' ''POST'' (headers st1),
              json = Some (PDict
                [(KStr ''FieldIds'', PList (map PInt (all_application_fields_array st1))),
                 (KStr ''ContentIds'', PList [PStr (str_int record_id)])])\<rparr> tr
     in case decoded ArcherAPIError rep of
          Inl e \<Rightarrow> (Inl e, st1, tr1)
        | Inr data \<Rightarrow> (first_record mk_record st1 data, st1, tr1))"

text \<open>The comprehension of lines 922-926, and \<open>find_grc_endpoint_url\<close> (lines 902-937).\<close>

fun matching_endpoints :: "string \<Rightarrow> pyval list \<Rightarrow> error + pyval list" where
  "matching_endpoints app_name [] = Inr []"
| "matching_endpoints app_name (endpoint # rest) =
    (case getitem endpoint (KStr ''name'') of
       Inl e \<Rightarrow> Inl e
     | Inr name \<Rightarrow>
    (case contains name app_name of
       Inl e \<Rightarrow> Inl e
     | Inr hit \<Rightarrow>
         (if hit
          then (case getitem endpoint (KStr ''url'') of
                  Inl e \<Rightarrow> Inl e
                | Inr u \<Rightarrow>
                    (case matching_endpoints app_name rest of
                       Inl e \<Rightarrow> Inl e
                     | Inr us \<Rightarrow> Inr (u # us)))
          else matching_endpoints app_name rest)))"

definition find_grc_endpoint_url ::
  "server \<Rightarrow> string \<Rightarrow> archer \<Rightarrow> event list \<Rightarrow> (error + pyval list) \<times> archer \<times> event list" where
  "find_grc_endpoint_url srv app_name st tr =
    (let st1 = ensure_client st;
         (rep, tr1) =
           send srv \<lparr>verb = GET, url = content_api_url_base st1, req_headers = headers st1,
                     json = None\<rparr> tr
     in case decoded ArcherAPIError rep of
          Inl e \<Rightarrow> (Inl e, st1, tr1)
        | Inr data \<Rightarrow>
            (case getitem data (KStr ''value'') of
               Inl e \<Rightarrow> (Inl e, st1, tr1)
             | Inr v \<Rightarrow>
                 (case py_iter v of
                    Inl e \<Rightarrow> (Inl e, st1, tr1)
                  | Inr endpoints \<Rightarrow> (matching_endpoints app_name endpoints, st1, tr1))))"

section \<open>Notions used to state the properties\<close>

text \<open>
  The state of \<open>application_fields_json\<close> that \<open>get_application_fields\<close> leaves: a field
  name leads to a field id, and the id to the dictionary of its type and id.
\<close>

definition fields_cache_ok :: "(key \<times> entry) list \<Rightarrow> bool" where
  "fields_cache_ok c =
    (\<forall>n e. map_of c (KStr n) = Some e \<longrightarrow>
       (\<exists>i t. e = Num i \<and> map_of c (KInt i) = Some (field_meta t i)))"

text \<open>The values \<open>fields_json\<close> supplies for the field id \<open>i\<close>, in the order of the
  dictionary, and the \<open>FieldContents\<close> object of a request body.\<close>

definition supplied :: "(key \<times> entry) list \<Rightarrow> (string \<times> pyval) list \<Rightarrow> int \<Rightarrow> pyval list" where
  "supplied c fields_json i =
    map snd (filter (\<lambda>(n, v). map_of c (KStr n) = Some (Num i)) fields_json)"

definition field_contents :: "request \<Rightarrow> error + pyval" where
  "field_contents r =
    (case json r of
       None \<Rightarrow> Inl KeyError
     | Some body \<Rightarrow>
         (case getitem body (KStr ''Content'') of
            Inl e \<Rightarrow> Inl e
          | Inr c \<Rightarrow> getitem c (KStr ''FieldContents'')))"

text \<open>
  The request of \<open>get_grc_endpoint_records\<close> for a \<open>skip\<close>, the first \<open>n\<close> requests of
  a pagination that starts at \<open>skip\<close>, the replies the server gives to the requests of a
  piece of trace, and what a reply holds: its batch (\<open>data["value"]\<close>), whether the batch
  is a full one of 1000 records, and the records the loop takes from it.
\<close>

definition grc_request :: "archer \<Rightarrow> string \<Rightarrow> int \<Rightarrow> request" where
  "grc_request st endpoint_url skip =
    \<lparr>verb = GET,
     url = content_api_url_base st @ endpoint_url @ ''?$skip='' @ str_int skip,
     req_headers = headers st, json = None\<rparr>"

definition batch_requests :: "archer \<Rightarrow> string \<Rightarrow> int \<Rightarrow> nat \<Rightarrow> event list" where
  "batch_requests st endpoint_url skip n =
    map (\<lambda>i. Sent (grc_request st endpoint_url (skip + 1000 * int i))) [0..<n]"

fun replies :: "server \<Rightarrow> event list \<Rightarrow> event list \<Rightarrow> reply list" where
  "replies srv tr [] = []"
| "replies srv tr (Sent r # evs) = srv tr r # replies srv (tr @ [Sent r]) evs"
| "replies srv tr (Slept n # evs) = replies srv (tr @ [Slept n]) evs"

definition batch_of :: "reply \<Rightarrow> error + pyval" where
  "batch_of rep =
    (case decoded ArcherAPIError rep of
       Inl e \<Rightarrow> Inl e
     | Inr data \<Rightarrow> getitem data (KStr ''value''))"

definition full_batch :: "reply \<Rightarrow> bool" where
  "full_batch rep =
    (case batch_of rep of
       Inl e \<Rightarrow> False
     | Inr batch \<Rightarrow> truthy batch \<and> py_len batch = Inr 1000)"

definition batch_items :: "reply \<Rightarrow> pyval list" where
  "batch_items rep =
    (case batch_of rep of
       Inl e \<Rightarrow> []
     | Inr batch \<Rightarrow>
         (if truthy batch then (case py_iter batch of Inl e \<Rightarrow> [] | Inr items \<Rightarrow> items)
          else []))"

text \<open>A record that \<open>build_unique_value_to_id_mapping\<close> stores under the key \<open>k\<close>: it
  contains the key field, and the prefix followed by the text of the field's value is
  \<open>k\<close>.\<close>

definition keyed_as ::
  "(pyval \<Rightarrow> string) \<Rightarrow> string \<Rightarrow> string \<Rightarrow> string \<Rightarrow> pyval \<Rightarrow> bool" where
  "keyed_as fmt key_value_field pfx k rec =
    (contains rec key_value_field = Inr True \<and>
     (case getitem rec (KStr key_value_field) of
        Inl e \<Rightarrow> False
      | Inr v \<Rightarrow> pfx @ fmt v = k))"

text \<open>
  What it means that an operation does not retry. A reply is a failure when the request
  raised or the status was an error; the operation answers a failed reply with the
  exception \<open>translated\<close>: the one the transport raised, or \<open>ArcherAPIError\<close> for a
  status error. An outcome is \<open>unretried\<close> when the operation added to the trace no wait,
  sent nothing after a failed reply, and raised the translated exception of a failed last
  reply. It is \<open>at_most_once\<close> when the operation added at most one event to the trace.
\<close>

definition failed :: "reply \<Rightarrow> bool" where
  "failed rep = (case rep of Raises e \<Rightarrow> True | Status_error \<Rightarrow> True | _ \<Rightarrow> False)"

definition translated :: "reply \<Rightarrow> error" where
  "translated rep = (case rep of Raises e \<Rightarrow> e | _ \<Rightarrow> ArcherAPIError)"

definition unretried :: "server \<Rightarrow> event list \<Rightarrow> (error + 'a) \<times> archer \<times> event list \<Rightarrow> bool" where
  "unretried srv tr out =
    (\<exists>evs. snd (snd out) = tr @ evs
       \<and> (\<forall>k. Slept k \<notin> set evs)
       \<and> (\<forall>rep \<in> set (butlast (replies srv tr evs)). \<not> failed rep)
       \<and> (replies srv tr evs \<noteq> [] \<longrightarrow> failed (last (replies srv tr evs)) \<longrightarrow>
            fst out = Inl (translated (last (replies srv tr evs)))))"

definition at_most_once :: "event list \<Rightarrow> (error + 'a) \<times> archer \<times> event list \<Rightarrow> bool" where
  "at_most_once tr out = (\<exists>evs. snd (snd out) = tr @ evs \<and> length evs \<le> 1)"

text \<open>
  The trace of \<open>k\<close> attempts at the request \<open>r\<close>, the first one numbered \<open>a\<close>: each
  attempt but the last is followed by the wait of the retry policy.
\<close>

fun attempts :: "request \<Rightarrow> nat \<Rightarrow> nat \<Rightarrow> event list" where
  "attempts r a 0 = []"
| "attempts r a (Suc 0) = [Sent r]"
| "attempts r a (Suc (Suc k)) = Sent r # Slept a # attempts r (Suc a) (Suc k)"

section \<open>Example inputs\<close>

text \<open>
  A client as the constructor leaves it when given a session token, and the same client
  after an application with a text field, a values-list field and a subform field has
  been loaded, two groups downloaded and one record key stored.
\<close>

definition fresh_client :: archer where
  "fresh_client =
    \<lparr>api_url_base = ''https://grc.example/RSAarcher/api/'',
     content_api_url_base = ''https://grc.example/RSAarcher/contentapi/'',
     instance_name = ''Prod'',
     timeout = 30,
     ssl_config = \<lparr>verify = True, ca_cert_path = None\<rparr>,
     credentials = None,
     session_token = Some ''tok'',
     client = False,
     application_level_id = [],
     application_fields_json = [],
     all_application_fields_array = [],
     vl_name_to_vl_id = [],
     subforms_json_by_sf_name = [],
     key_field_value_to_system_id = [],
     archer_groups_name_to_id = []\<rparr>"

definition loaded_client :: archer where
  "loaded_client =
    fresh_client
     \<lparr>client := True,
      application_level_id := ''5'',
      application_fields_json :=
        [(KStr ''Title'', Num 101), (KInt 101, field_meta (PInt 1) 101),
         (KStr ''Status'', Num 102), (KInt 102, field_meta (PInt 4) 102),
         (KStr ''Contacts'', Num 103), (KInt 103, field_meta (PInt 24) 103)],
      all_application_fields_array := [101, 102, 103],
      vl_name_to_vl_id := [(''Status'', 40)],
      subforms_json_by_sf_name :=
        [(''Contacts'',
          [(KStr ''Phone'', Num 201), (KStr ''LevelId'', Num 6),
           (KInt 201, field_meta (PInt 1) 201), (KStr ''AllFields'', Arr [201])])],
      key_field_value_to_system_id := [(''INC-1'', PInt 9001)],
      archer_groups_name_to_id := [(''Administrators'', 1), (''Auditors'', 2)]\<rparr>"

text \<open>A server that answers every request with the id 555, and a model that answers
  every call with one choice.\<close>

definition id_server :: server where
  "id_server tr r = Json (PDict [(KStr ''RequestedObject'', PDict [(KStr ''Id'', PInt 555)])])"

definition echo_model :: "completion_call \<Rightarrow> error + string list" where
  "echo_model call = Inr [''done'']"

text \<open>A constructor of \<open>Record\<close> that keeps the object it is given.\<close>

definition plain_record :: "archer \<Rightarrow> pyval \<Rightarrow> error + pyval" where
  "plain_record st obj = Inr obj"

text \<open>
  The text of a scalar value, as an f-string gives it, and a server whose every reply is
  one short batch of three records.
\<close>

definition scalar_fmt :: "pyval \<Rightarrow> string" where
  "scalar_fmt v =
    (case v of PStr s \<Rightarrow> s | PInt i \<Rightarrow> str_int i | PNone \<Rightarrow> ''None''
     | PBool b \<Rightarrow> (if b then ''True'' else ''False'') | _ \<Rightarrow> [])"

definition short_server :: server where
  "short_server tr r =
    Json (PDict [(KStr ''value'', PList
      [PDict [(KStr ''Name'', PStr ''INC-7''), (KStr ''Incidents_Id'', PInt 70)],
       PDict [(KStr ''Incidents_Id'', PInt 71)],
       PDict [(KStr ''Name'', PStr ''INC-7''), (KStr ''Incidents_Id'', PInt 72)]])])"

text \<open>A server that answers with the field definitions of the application 7 (a text
  field, a values-list field and a subform field) and of its subform.\<close>

definition field_row :: "string \<Rightarrow> int \<Rightarrow> int \<Rightarrow> int \<Rightarrow> (key \<times> pyval) list \<Rightarrow> pyval" where
  "field_row name field_id level_id field_type extra =
    PDict [(KStr ''RequestedObject'',
      PDict ([(KStr ''Name'', PStr name), (KStr ''Id'', PInt field_id),
              (KStr ''LevelId'', PInt level_id), (KStr ''Type'', PInt field_type)] @ extra))]"

definition fields_server :: server where
  "fields_server tr r =
    (if url r = ''https://grc.example/RSAarcher/api/core/system/fielddefinition/application/7?$filter=IsActive eq true''
     then Json (PList
       [field_row ''Title'' 101 5 1 [],
        field_row ''Status'' 102 5 4 [(KStr ''RelatedValuesListId'', PInt 40)],
        field_row ''Contacts'' 103 5 24 [(KStr ''RelatedSubformId'', PInt 9)]])
     else Json (PList [field_row ''Phone'' 201 6 1 []]))"

text \<open>A server with two pages of records: a full batch of 1000 for the skip 0, and a
  batch of two for every other skip.\<close>

definition two_page_server :: server where
  "two_page_server tr r =
    (if url r = ''https://grc.example/RSAarcher/contentapi/Incidents?$skip=0''
     then Json (PDict [(KStr ''value'', PList
       (PDict [(KStr ''Name'', PStr ''INC-7''), (KStr ''Incidents_Id'', PInt 70)] #
        replicate 999 (PDict [(KStr ''Incidents_Id'', PInt 71)])))])
     else Json (PDict [(KStr ''value'', PList
       [PDict [(KStr ''Name'', PStr ''INC-7''), (KStr ''Incidents_Id'', PInt 72)],
        PDict [(KStr ''Name'', PStr ''INC-8''), (KStr ''Incidents_Id'', PInt 80)]])]))"

text \<open>A client that holds credentials and no token; a login server that is unreachable
  for the first two requests and then hands out a token; one that is never reachable.\<close>

definition api_credentials :: auth_credentials where
  "api_credentials =
    \<lparr>cred_instance_name = ''Prod'', cred_username = ''api'', cred_password = ''pw'',
     cred_user_domain = []\<rparr>"

definition cred_client :: archer where
  "cred_client = fresh_client\<lparr>credentials := Some api_credentials, session_token := None\<rparr>"

definition flaky_server :: server where
  "flaky_server tr r =
    (if length tr < 4 then Raises NetworkError
     else Json (PDict [(KStr ''RequestedObject'',
                        PDict [(KStr ''SessionToken'', PStr ''tok2'')])]))"

definition dead_server :: server where
  "dead_server tr r = Raises NetworkError"

section \<open>Basic facts\<close>

lemma truthy_str_simps [simp]:
  "truthy_str None = False" "truthy_str (Some s) = (s \<noteq> [])"
  by (simp_all add: truthy_str_def)

lemma ensure_client_fields [simp]:
  "application_fields_json (ensure_client st) = application_fields_json st"
  "subforms_json_by_sf_name (ensure_client st) = subforms_json_by_sf_name st"
  "application_level_id (ensure_client st) = application_level_id st"
  "session_token (ensure_client st) = session_token st"
  "api_url_base (ensure_client st) = api_url_base st"
  "content_api_url_base (ensure_client st) = content_api_url_base st"
  "key_field_value_to_system_id (ensure_client st) = key_field_value_to_system_id st"
  by (simp_all add: ensure_client_def)

lemma headers_ensure_client [simp]: "headers (ensure_client st) = headers st"
  by (simp add: headers_def Let_def)

lemma transform_step_present:
  assumes ok: "fields_cache_ok (application_fields_json st)"
    and n: "map_of (application_fields_json st) (KStr n) = Some e"
  obtains i t where "e = Num i"
    and "map_of (application_fields_json st) (KInt i) = Some (field_meta t i)"
    and "transform_fields st ((n, v) # rest) acc =
         transform_fields st rest
           (AList.update (KInt i)
              (PDict [(KStr ''Type'', t), (KStr ''FieldId'', PInt i), (KStr ''Value'', v)]) acc)"
proof -
  from ok n obtain i t where e: "e = Num i"
    and m: "map_of (application_fields_json st) (KInt i) = Some (field_meta t i)"
    unfolding fields_cache_ok_def by blast
  have "transform_fields st ((n, v) # rest) acc =
         transform_fields st rest
           (AList.update (KInt i)
              (PDict [(KStr ''Type'', t), (KStr ''FieldId'', PInt i), (KStr ''Value'', v)]) acc)"
    using n e m
    by (simp add: get_field_id_by_name_def prepare_field_value_def entry_key_def
        entry_dict_def field_meta_def)
  with e m that show thesis by blast
qed

lemma transform_fields_absent:
  assumes ok: "fields_cache_ok (application_fields_json st)"
  shows "\<exists>n \<in> fst ` set fs. map_of (application_fields_json st) (KStr n) = None
         \<Longrightarrow> transform_fields st fs acc = Inl FieldNotFoundError"
proof (induction fs arbitrary: acc)
  case Nil
  then show ?case by simp
next
  case (Cons p fs)
  obtain n v where p: "p = (n, v)" by (cases p)
  show ?case
  proof (cases "map_of (application_fields_json st) (KStr n)")
    case None
    then show ?thesis by (simp add: p get_field_id_by_name_def)
  next
    case (Some e)
    from transform_step_present [OF ok Some, of v fs acc]
    obtain i t where step: "transform_fields st ((n, v) # fs) acc =
         transform_fields st fs
           (AList.update (KInt i)
              (PDict [(KStr ''Type'', t), (KStr ''FieldId'', PInt i), (KStr ''Value'', v)]) acc)"
      by blast
    from Cons.prems Some p
    have "\<exists>m \<in> fst ` set fs. map_of (application_fields_json st) (KStr m) = None"
      by auto
    from Cons.IH [OF this] step p show ?thesis by simp
  qed
qed

lemma supplied_Nil [simp]: "supplied c [] i = []"
  by (simp add: supplied_def)

lemma supplied_Cons:
  "supplied c ((n, v) # fs) i =
     (if map_of c (KStr n) = Some (Num i) then v # supplied c fs i else supplied c fs i)"
  by (simp add: supplied_def)

lemma transform_fields_present:
  assumes ok: "fields_cache_ok (application_fields_json st)"
  shows "\<forall>n \<in> fst ` set fs. map_of (application_fields_json st) (KStr n) \<noteq> None
     \<Longrightarrow> \<exists>fc. transform_fields st fs acc = Inr fc
          \<and> (\<forall>s. map_of fc (KStr s) = map_of acc (KStr s))
          \<and> (\<forall>i. supplied (application_fields_json st) fs i = []
                 \<longrightarrow> map_of fc (KInt i) = map_of acc (KInt i))
          \<and> (\<forall>i. supplied (application_fields_json st) fs i \<noteq> []
                 \<longrightarrow> (\<exists>t. map_of (application_fields_json st) (KInt i) = Some (field_meta t i)
                       \<and> map_of fc (KInt i) =
                           Some (PDict [(KStr ''Type'', t), (KStr ''FieldId'', PInt i),
                             (KStr ''Value'', last (supplied (application_fields_json st) fs i))])))"
proof (induction fs arbitrary: acc)
  case Nil
  then show ?case by simp
next
  case (Cons p fs)
  obtain n v where p: "p = (n, v)" by (cases p)
  from Cons.prems p obtain e where e: "map_of (application_fields_json st) (KStr n) = Some e"
    by auto
  from transform_step_present [OF ok e, of v fs acc]
  obtain j t where ej: "e = Num j"
    and mj: "map_of (application_fields_json st) (KInt j) = Some (field_meta t j)"
    and step: "transform_fields st ((n, v) # fs) acc =
         transform_fields st fs
           (AList.update (KInt j)
              (PDict [(KStr ''Type'', t), (KStr ''FieldId'', PInt j), (KStr ''Value'', v)]) acc)"
    by blast
  let ?acc = "AList.update (KInt j)
              (PDict [(KStr ''Type'', t), (KStr ''FieldId'', PInt j), (KStr ''Value'', v)]) acc"
  from Cons.prems have "\<forall>m \<in> fst ` set fs. map_of (application_fields_json st) (KStr m) \<noteq> None"
    by auto
  from Cons.IH [OF this, of ?acc] obtain fc where
    fc: "transform_fields st fs ?acc = Inr fc"
    and strs: "\<forall>s. map_of fc (KStr s) = map_of ?acc (KStr s)"
    and none: "\<forall>i. supplied (application_fields_json st) fs i = []
                 \<longrightarrow> map_of fc (KInt i) = map_of ?acc (KInt i)"
    and some: "\<forall>i. supplied (application_fields_json st) fs i \<noteq> []
                 \<longrightarrow> (\<exists>t. map_of (application_fields_json st) (KInt i) = Some (field_meta t i)
                       \<and> map_of fc (KInt i) =
                           Some (PDict [(KStr ''Type'', t), (KStr ''FieldId'', PInt i),
                             (KStr ''Value'', last (supplied (application_fields_json st) fs i))]))"
    by blast
  have "transform_fields st (p # fs) acc = Inr fc"
    using step fc p by simp
  moreover have "\<forall>s. map_of fc (KStr s) = map_of acc (KStr s)"
    using strs by (simp add: update_conv')
  moreover have "\<forall>i. supplied (application_fields_json st) (p # fs) i = []
                 \<longrightarrow> map_of fc (KInt i) = map_of acc (KInt i)"
    using none e ej by (auto simp: p supplied_Cons update_conv' split: if_splits)
  moreover have "\<forall>i. supplied (application_fields_json st) (p # fs) i \<noteq> []
                 \<longrightarrow> (\<exists>t. map_of (application_fields_json st) (KInt i) = Some (field_meta t i)
                       \<and> map_of fc (KInt i) =
                           Some (PDict [(KStr ''Type'', t), (KStr ''FieldId'', PInt i),
                             (KStr ''Value'', last (supplied (application_fields_json st) (p # fs) i))]))"
  proof (intro allI impI)
    fix i
    assume ne: "supplied (application_fields_json st) (p # fs) i \<noteq> []"
    show "\<exists>t. map_of (application_fields_json st) (KInt i) = Some (field_meta t i)
              \<and> map_of fc (KInt i) =
                  Some (PDict [(KStr ''Type'', t), (KStr ''FieldId'', PInt i),
                    (KStr ''Value'', last (supplied (application_fields_json st) (p # fs) i))])"
    proof (cases "supplied (application_fields_json st) fs i = []")
      case True
      with ne have ij: "i = j" using e ej by (auto simp: p supplied_Cons split: if_splits)
      from True none have "map_of fc (KInt i) = map_of ?acc (KInt i)" by blast
      with ij mj True e ej show ?thesis
        by (simp add: p supplied_Cons update_conv')
    next
      case False
      with some obtain t' where
        "map_of (application_fields_json st) (KInt i) = Some (field_meta t' i)"
        "map_of fc (KInt i) =
           Some (PDict [(KStr ''Type'', t'), (KStr ''FieldId'', PInt i),
             (KStr ''Value'', last (supplied (application_fields_json st) fs i))])"
        by blast
      with False show ?thesis by (auto simp: p supplied_Cons)
    qed
  qed
  ultimately show ?case by blast
qed



lemma create_content_record_sends:
  assumes fc: "transform_fields (ensure_client st) fields_json [] = Inr fc"
  shows "\<exists>r. snd (snd (create_content_record srv fields_json record_id st tr)) = tr @ [Sent r]
           \<and> field_contents r = Inr (PDict fc)"
proof (cases "truthy_int record_id")
  case True
  let ?r = "\<lparr>verb = PUT, url = api_url_base st @ ''core/content/'',
             req_headers = AList.update ''X-Http-Method-Override'' ''PUT'' (headers st),
             json = Some (PDict [(KStr ''Content'',
               PDict [(KStr ''Id'', PInt (the record_id)),
                      (KStr ''LevelId'', PStr (application_level_id st)),
                      (KStr ''FieldContents'', PDict fc)])])\<rparr>"
  have "snd (snd (create_content_record srv fields_json record_id st tr)) = tr @ [Sent ?r]"
    using fc True
    by (cases "decoded ArcherAPIError (srv tr ?r)")
       (simp_all add: create_content_record_def Let_def send_def)
  moreover have "field_contents ?r = Inr (PDict fc)"
    by (simp add: field_contents_def)
  ultimately show ?thesis by blast
next
  case False
  let ?r = "\<lparr>verb = POST, url = api_url_base st @ ''core/content/'',
             req_headers = AList.update ''X-Http-Method-Override'' ''POST'' (headers st),
             json = Some (PDict [(KStr ''Content'',
               PDict [(KStr ''LevelId'', PStr (application_level_id st)),
                      (KStr ''FieldContents'', PDict fc)])])\<rparr>"
  have "snd (snd (create_content_record srv fields_json record_id st tr)) = tr @ [Sent ?r]"
    using fc False
    by (cases "decoded ArcherAPIError (srv tr ?r)")
       (simp_all add: create_content_record_def Let_def send_def)
  moreover have "field_contents ?r = Inr (PDict fc)"
    by (simp add: field_contents_def)
  ultimately show ?thesis by blast
qed

lemma in_keys_iff: "(k \<notin> fst ` set xs) = (map_of xs k = None)"
  by (simp add: map_of_eq_None_iff)

lemma digits_small: "n < 10 \<Longrightarrow> digits n = [''0123456789'' ! n]"
  by (subst digits.simps) simp

lemma digits_big: "\<not> n < 10 \<Longrightarrow> digits n = digits (n div 10) @ [''0123456789'' ! (n mod 10)]"
  by (subst digits.simps) simp

declare digits.simps [simp del]

lemma supplied_nonempty_iff:
  "(supplied c fj i \<noteq> []) = (\<exists>n \<in> fst ` set fj. map_of c (KStr n) = Some (Num i))"
proof (induction fj)
  case Nil
  then show ?case by simp
next
  case (Cons p fj)
  obtain n v where p: "p = (n, v)" by (cases p)
  show ?case using Cons.IH by (auto simp: p supplied_Cons)
qed

section \<open>The cache of field definitions\<close>

text \<open>
  \<open>application_fields_json\<close> is empty after the constructor and written by
  \<open>get_application_fields\<close> only, which keeps it in the shape \<open>fields_cache_ok\<close>
  describes, whatever the server answers and wherever the loop ends. The example client
  \<open>loaded_client\<close> is what loading the application 7 leaves.
\<close>

lemma fields_cache_ok_store:
  assumes "fields_cache_ok c"
  shows "fields_cache_ok
           (AList.update (KInt i) (field_meta t i) (AList.update (KStr n) (Num i) c))"
  unfolding fields_cache_ok_def
proof (intro allI impI)
  fix m e
  assume m: "map_of (AList.update (KInt i) (field_meta t i) (AList.update (KStr n) (Num i) c))
               (KStr m) = Some e"
  show "\<exists>j u. e = Num j \<and>
          map_of (AList.update (KInt i) (field_meta t i) (AList.update (KStr n) (Num i) c))
            (KInt j) = Some (field_meta u j)"
  proof (cases "m = n")
    case True
    with m have "e = Num i" by (simp add: update_conv')
    then show ?thesis by (auto simp: update_conv')
  next
    case False
    with m have "map_of c (KStr m) = Some e" by (simp add: update_conv')
    with assms obtain j u where "e = Num j" "map_of c (KInt j) = Some (field_meta u j)"
      unfolding fields_cache_ok_def by blast
    then show ?thesis by (cases "j = i") (auto simp: update_conv')
  qed
qed

lemma get_subform_fields_by_id_state:
  "fst (snd (get_subform_fields_by_id srv subform_id st tr)) = ensure_client st"
  by (simp add: get_subform_fields_by_id_def Let_def send_def split: sum.splits prod.splits)

lemma application_fields_loop_cache_ok:
  "fields_cache_ok (application_fields_json st) \<Longrightarrow>
   fields_cache_ok (application_fields_json
     (fst (snd (application_fields_loop srv rows level st tr))))"
proof (induction rows arbitrary: level st tr)
  case Nil
  then show ?case by simp
next
  case (Cons field rest)
  show ?case
  proof (cases "getitem field (KStr ''RequestedObject'')")
    case (Inl e)
    with Cons.prems show ?thesis by simp
  next
    case req: (Inr req_obj)
    show ?thesis
    proof (cases "item_str req_obj ''Name''")
      case (Inl e)
      with req Cons.prems show ?thesis by simp
    next
      case name: (Inr name)
      show ?thesis
      proof (cases "item_int req_obj ''Id''")
        case (Inl e)
        with req name Cons.prems show ?thesis by simp
      next
        case fid: (Inr field_id)
        show ?thesis
        proof (cases "item_int req_obj ''LevelId''")
          case (Inl e)
          with req name fid Cons.prems show ?thesis by simp
        next
          case lvl: (Inr level_id)
          show ?thesis
          proof (cases "getitem req_obj (KStr ''Type'')")
            case (Inl e)
            with req name fid lvl Cons.prems show ?thesis by simp
          next
            case ty: (Inr field_type)
            let ?c = "AList.update (KInt field_id) (field_meta field_type field_id)
                        (AList.update (KStr name) (Num field_id) (application_fields_json st))"
            have ok: "fields_cache_ok ?c"
              using Cons.prems by (rule fields_cache_ok_store)
            have IH: "fields_cache_ok (application_fields_json
                 (fst (snd (application_fields_loop srv rest l s t))))"
              if "application_fields_json s = ?c" for l s t
              using Cons.IH [of s l t] ok that by simp
            show ?thesis
              using req name fid lvl ty ok
              apply (simp add: Let_def split: sum.splits prod.splits)
              apply (intro conjI impI allI)
              apply (auto intro!: IH simp: get_subform_fields_by_id_state
                  dest!: arg_cong [where f = "\<lambda>p. fst (snd p)"])
              done
          qed
        qed
      qed
    qed
  qed
qed


lemma get_application_fields_cache_ok:
  assumes "fields_cache_ok (application_fields_json st)"
  shows "fields_cache_ok (application_fields_json
           (fst (snd (get_application_fields srv application_id st tr))))"
proof -
  have "fields_cache_ok (application_fields_json
          (fst (snd (application_fields_loop srv rows None (ensure_client st) t))))" for rows t
    using assms by (intro application_fields_loop_cache_ok) simp
  then have "fields_cache_ok (application_fields_json s)"
    if "application_fields_loop srv rows None (ensure_client st) t = (res, s, t')"
    for rows t res s t'
    using that by (metis fst_conv snd_conv)
  with assms show ?thesis
    by (auto simp: get_application_fields_def Let_def send_def
        split: sum.splits prod.splits option.splits)
qed

lemma init_cache_ok:
  "init inst_url inst_name username password token ssl_verify ca_cert tmo = Inr st \<Longrightarrow>
   fields_cache_ok (application_fields_json st)"
  by (auto simp: init_def Let_def fields_cache_ok_def split: if_splits)

lemma loaded_client_is_loaded:
  "get_application_fields fields_server 7 fresh_client [] =
     (Inr (),
      loaded_client\<lparr>key_field_value_to_system_id := [], archer_groups_name_to_id := []\<rparr>,
      [Sent \<lparr>verb = GET,
             url = ''https://grc.example/RSAarcher/api/core/system/fielddefinition/application/7?$filter=IsActive eq true'',
             req_headers = headers fresh_client, json = None\<rparr>,
       Sent \<lparr>verb = GET,
             url = ''https://grc.example/RSAarcher/api/core/system/fielddefinition/application/9?$filter=IsActive eq true'',
             req_headers = headers fresh_client, json = None\<rparr>])"
  by (simp add: get_application_fields_def get_subform_fields_by_id_def Let_def send_def
      decoded_def fields_server_def field_row_def item_str_def item_int_def as_str_def
      as_int_def str_int_def digits_small headers_def ensure_client_def
      loaded_client_def fresh_client_def)

section \<open>Field names become field ids before the request\<close>

text \<open>
  Claim C1. Let the cache \<open>application_fields_json\<close> be as \<open>get_application_fields\<close>
  leaves it. If every field name of \<open>fields_json\<close> is a key of the cache, then
  \<open>create_content_record(fields_json, record_id)\<close> sends exactly one request; the keys of
  the \<open>FieldContents\<close> object of its body are the field ids the cache gives the field
  names of \<open>fields_json\<close>, and the entry of each such id is the cached dictionary of the
  id (\<open>"Type"\<close> and \<open>"FieldId"\<close>) with the key \<open>"Value"\<close> added, holding the value the
  caller supplied for it (the last one in the order of \<open>fields_json\<close>, should two names
  share an id). If some field name is not a key of the cache, \<open>FieldNotFoundError\<close> is
  raised and the trace is unchanged: no request is sent.
\<close>

theorem create_content_record_substitutes_ids:
  assumes ok: "fields_cache_ok (application_fields_json st)"
  shows "if \<forall>n \<in> fst ` set fields_json. KStr n \<in> fst ` set (application_fields_json st)
    then \<exists>r fc. snd (snd (create_content_record srv fields_json record_id st tr)) = tr @ [Sent r]
        \<and> field_contents r = Inr (PDict fc)
        \<and> (\<forall>k. (k \<in> fst ` set fc) =
              (\<exists>n \<in> fst ` set fields_json. \<exists>i.
                 map_of (application_fields_json st) (KStr n) = Some (Num i) \<and> k = KInt i))
        \<and> (\<forall>(n, v) \<in> set fields_json. \<exists>i t.
              map_of (application_fields_json st) (KStr n) = Some (Num i)
              \<and> map_of (application_fields_json st) (KInt i) = Some (field_meta t i)
              \<and> map_of fc (KInt i) =
                  Some (PDict [(KStr ''Type'', t), (KStr ''FieldId'', PInt i),
                    (KStr ''Value'', last (supplied (application_fields_json st) fields_json i))]))
    else create_content_record srv fields_json record_id st tr =
           (Inl FieldNotFoundError, ensure_client st, tr)"
proof (cases "\<forall>n \<in> fst ` set fields_json. KStr n \<in> fst ` set (application_fields_json st)")
  case False
  then have "\<exists>n \<in> fst ` set fields_json. map_of (application_fields_json st) (KStr n) = None"
    by (simp add: map_of_eq_None_iff)
  then have ex: "\<exists>n \<in> fst ` set fields_json.
      map_of (application_fields_json (ensure_client st)) (KStr n) = None"
    by simp
  have ok': "fields_cache_ok (application_fields_json (ensure_client st))"
    using ok by simp
  have "transform_fields (ensure_client st) fields_json [] = Inl FieldNotFoundError"
    by (rule transform_fields_absent [OF ok' ex])
  with False show ?thesis
    by (simp add: create_content_record_def Let_def)
next
  case True
  let ?c = "application_fields_json st"
  have ok': "fields_cache_ok (application_fields_json (ensure_client st))"
    using ok by simp
  from True have "\<forall>n \<in> fst ` set fields_json. map_of ?c (KStr n) \<noteq> None"
    by (simp add: map_of_eq_None_iff)
  then have pres: "\<forall>n \<in> fst ` set fields_json.
      map_of (application_fields_json (ensure_client st)) (KStr n) \<noteq> None"
    by simp
  from transform_fields_present [OF ok' pres, of "[]"]
  obtain fc where
    fc: "transform_fields (ensure_client st) fields_json [] = Inr fc"
    and strs: "\<forall>s. map_of fc (KStr s) = None"
    and none: "\<forall>i. supplied ?c fields_json i = [] \<longrightarrow> map_of fc (KInt i) = None"
    and some: "\<forall>i. supplied ?c fields_json i \<noteq> []
                 \<longrightarrow> (\<exists>t. map_of ?c (KInt i) = Some (field_meta t i)
                       \<and> map_of fc (KInt i) =
                           Some (PDict [(KStr ''Type'', t), (KStr ''FieldId'', PInt i),
                             (KStr ''Value'', last (supplied ?c fields_json i))]))"
    by (simp only: ensure_client_fields map_of.simps) blast
  from create_content_record_sends [OF fc, of srv record_id tr]
  obtain r where
    r: "snd (snd (create_content_record srv fields_json record_id st tr)) = tr @ [Sent r]"
    and body: "field_contents r = Inr (PDict fc)"
    by blast
  have keys: "(k \<in> fst ` set fc) =
      (\<exists>n \<in> fst ` set fields_json. \<exists>i. map_of ?c (KStr n) = Some (Num i) \<and> k = KInt i)" for k
  proof (cases k)
    case (KStr s)
    from strs have "map_of fc (KStr s) = None" by blast
    then have "KStr s \<notin> fst ` set fc" by (simp add: map_of_eq_None_iff)
    with KStr show ?thesis by simp
  next
    case (KInt i)
    show ?thesis
    proof (cases "supplied ?c fields_json i = []")
      case True
      with none have "map_of fc (KInt i) = None" by blast
      then have "KInt i \<notin> fst ` set fc" by (simp add: map_of_eq_None_iff)
      with True supplied_nonempty_iff [of ?c fields_json i] KInt show ?thesis by simp
    next
      case False
      with some obtain y where "map_of fc (KInt i) = Some y" by blast
      then have "KInt i \<in> fst ` set fc" by (metis map_of_eq_None_iff option.distinct(1))
      with False supplied_nonempty_iff [of ?c fields_json i] KInt show ?thesis by simp
    qed
  qed
  have entries: "\<exists>i t.
              map_of ?c (KStr n) = Some (Num i)
              \<and> map_of ?c (KInt i) = Some (field_meta t i)
              \<and> map_of fc (KInt i) =
                  Some (PDict [(KStr ''Type'', t), (KStr ''FieldId'', PInt i),
                    (KStr ''Value'', last (supplied ?c fields_json i))])"
    if nv: "(n, v) \<in> set fields_json" for n v
  proof -
    from nv have nin: "n \<in> fst ` set fields_json" by force
    with True have "KStr n \<in> fst ` set ?c" by blast
    then have "map_of ?c (KStr n) \<noteq> None"
      by (simp add: map_of_eq_None_iff)
    then obtain e where e: "map_of ?c (KStr n) = Some e" by auto
    with ok obtain i where i: "e = Num i" unfolding fields_cache_ok_def by blast
    with e nin have "supplied ?c fields_json i \<noteq> []"
      using supplied_nonempty_iff [of ?c fields_json i] by blast
    with some obtain t where "map_of ?c (KInt i) = Some (field_meta t i)"
      "map_of fc (KInt i) =
         Some (PDict [(KStr ''Type'', t), (KStr ''FieldId'', PInt i),
           (KStr ''Value'', last (supplied ?c fields_json i))])"
      by blast
    with e i show ?thesis by blast
  qed
  have main: "\<exists>r fc. snd (snd (create_content_record srv fields_json record_id st tr)) = tr @ [Sent r]
        \<and> field_contents r = Inr (PDict fc)
        \<and> (\<forall>k. (k \<in> fst ` set fc) =
              (\<exists>n \<in> fst ` set fields_json. \<exists>i.
                 map_of ?c (KStr n) = Some (Num i) \<and> k = KInt i))
        \<and> (\<forall>(n, v) \<in> set fields_json. \<exists>i t.
              map_of ?c (KStr n) = Some (Num i)
              \<and> map_of ?c (KInt i) = Some (field_meta t i)
              \<and> map_of fc (KInt i) =
                  Some (PDict [(KStr ''Type'', t), (KStr ''FieldId'', PInt i),
                    (KStr ''Value'', last (supplied ?c fields_json i))]))"
    apply (rule exI [of _ r])
    apply (rule exI [of _ fc])
    apply (intro conjI allI)
       apply (rule r)
      apply (rule body)
     apply (rule keys)
    using entries apply fast
    done
  show ?thesis by (subst if_P [OF True]) (rule main)
qed

lemma loaded_client_cache_ok: "fields_cache_ok (application_fields_json loaded_client)"
  by (auto simp: fields_cache_ok_def loaded_client_def fresh_client_def split: if_splits)

lemma ensure_client_loaded: "ensure_client loaded_client = loaded_client"
  by (simp add: ensure_client_def loaded_client_def)

lemma create_example_run:
  "create_content_record id_server [(''Title'', PStr ''Outage'')] None loaded_client [] =
       (Inr (PInt 555), loaded_client,
        [Sent \<lparr>verb = POST, url = ''https://grc.example/RSAarcher/api/core/content/'',
               req_headers =
                 [(''Accept'',
                   ''application/json,text/html,application/xhtml+xml,application/xml;q=0.9,*/*;q=0.8''),
                  (''Content-Type'', ''application/json''),
                  (''Authorization'', ''Archer session-id=tok''),
                  (''X-Http-Method-Override'', ''POST'')],
               json = Some (PDict [(KStr ''Content'',
                 PDict [(KStr ''LevelId'', PStr ''5''),
                        (KStr ''FieldContents'',
                         PDict [(KInt 101,
                           PDict [(KStr ''Type'', PInt 1), (KStr ''FieldId'', PInt 101),
                                  (KStr ''Value'', PStr ''Outage'')])])])])\<rparr>])"
  by (simp add: create_content_record_def Let_def ensure_client_def
      get_field_id_by_name_def prepare_field_value_def entry_key_def entry_dict_def
      field_meta_def send_def decoded_def requested_id_def id_server_def headers_def
      truthy_int_def loaded_client_def fresh_client_def)

lemma create_example_missing:
  "create_content_record id_server [(''Title'', PStr ''Outage''), (''Owner'', PStr ''me'')]
         None loaded_client [] = (Inl FieldNotFoundError, loaded_client, [])"
  by (simp add: create_content_record_def Let_def ensure_client_def
      get_field_id_by_name_def prepare_field_value_def entry_key_def entry_dict_def
      field_meta_def loaded_client_def fresh_client_def)

theorem create_content_record_substitutes_ids_witness:
  "fields_cache_ok (application_fields_json loaded_client)
   \<and> create_content_record id_server [(''Title'', PStr ''Outage'')] None loaded_client [] =
       (Inr (PInt 555), loaded_client,
        [Sent \<lparr>verb = POST, url = ''https://grc.example/RSAarcher/api/core/content/'',
               req_headers =
                 [(''Accept'',
                   ''application/json,text/html,application/xhtml+xml,application/xml;q=0.9,*/*;q=0.8''),
                  (''Content-Type'', ''application/json''),
                  (''Authorization'', ''Archer session-id=tok''),
                  (''X-Http-Method-Override'', ''POST'')],
               json = Some (PDict [(KStr ''Content'',
                 PDict [(KStr ''LevelId'', PStr ''5''),
                        (KStr ''FieldContents'',
                         PDict [(KInt 101,
                           PDict [(KStr ''Type'', PInt 1), (KStr ''FieldId'', PInt 101),
                                  (KStr ''Value'', PStr ''Outage'')])])])])\<rparr>])
   \<and> create_content_record id_server [(''Title'', PStr ''Outage''), (''Owner'', PStr ''me'')]
         None loaded_client [] = (Inl FieldNotFoundError, loaded_client, [])"
  using create_content_record_substitutes_ids [OF loaded_client_cache_ok,
          of "[(''Title'', PStr ''Outage''), (''Owner'', PStr ''me'')]" id_server None "[]"]
  by (simp only: loaded_client_cache_ok create_example_run create_example_missing simp_thms)

section \<open>Updating a record is creating it with an id\<close>

text \<open>
  Claim C9. For every dictionary of fields, record id, client state, server and trace,
  \<open>update_content_record(updated_json, record_id)\<close> is
  \<open>create_content_record(updated_json, record_id)\<close>: the same result or exception, the
  same client state afterwards and the same requests sent.
\<close>

theorem update_content_record_is_create:
  "update_content_record srv updated_json record_id st tr =
     create_content_record srv updated_json (Some record_id) st tr"
  by (simp add: update_content_record_def)

section \<open>The constructor\<close>

lemma init_fresh_client:
  "init ''grc.example'' ''Prod'' None None (Some ''tok'') True None 30 = Inr fresh_client"
  by (simp add: init_def fresh_client_def)

text \<open>
  Claim C10. A username, a password or a session token counts as supplied when Python's
  truth test accepts it: it is neither \<open>None\<close> nor the empty string. The constructor
  raises \<open>ValueError\<close> exactly when neither both a username and a password nor a session
  token are supplied, and it raises nothing else. Whenever it returns, the credentials are
  set or the session token is, so that either the token can be acquired or the headers
  carry the \<open>Authorization\<close> entry.
\<close>

theorem init_raises_iff:
  "((init inst_url inst_name username password token ssl_verify ca_cert tmo = Inl ValueError)
      = (\<not> (truthy_str username \<and> truthy_str password) \<and> \<not> truthy_str token))
   \<and> (\<forall>e. init inst_url inst_name username password token ssl_verify ca_cert tmo = Inl e
          \<longrightarrow> e = ValueError)
   \<and> (\<forall>st. init inst_url inst_name username password token ssl_verify ca_cert tmo = Inr st
          \<longrightarrow> (credentials st \<noteq> None \<or> truthy_str (session_token st))
            \<and> (credentials st \<noteq> None \<or>
                 map_of (headers st) ''Authorization'' =
                   Some (''Archer session-id='' @ the (session_token st))))"
  by (auto simp: init_def Let_def headers_def)

theorem init_raises_iff_witness:
  "init ''grc.example'' ''Prod'' None None None True None 30 = Inl ValueError
   \<and> init ''grc.example'' ''Prod'' (Some '''') (Some ''pw'') None True None 30 = Inl ValueError
   \<and> init ''grc.example'' ''Prod'' None None (Some ''tok'') True None 30 = Inr fresh_client
   \<and> credentials fresh_client = None \<and> truthy_str (session_token fresh_client)
   \<and> map_of (headers fresh_client) ''Authorization'' = Some ''Archer session-id=tok''"
  using init_raises_iff [of "''grc.example''" "''Prod''" None None None True None 30]
        init_raises_iff [of "''grc.example''" "''Prod''" "Some ''''" "Some ''pw''" None True None 30]
        init_raises_iff [of "''grc.example''" "''Prod''" None None "Some ''tok''" True None 30]
  by (simp add: init_fresh_client) (simp add: fresh_client_def headers_def)

section \<open>Missing names in the caches\<close>

text \<open>
  Claim C2. For every name and client, \<open>get_group_id\<close> raises \<open>GroupNotFoundError\<close>
  exactly when the name is no key of \<open>archer_groups_name_to_id\<close> and returns the cached
  id otherwise; \<open>get_vl_id_by_field_name\<close> does the same with \<open>FieldNotFoundError\<close> and
  \<open>vl_name_to_vl_id\<close>, and \<open>get_record_id_by_unique_value\<close> with \<open>RecordNotFoundError\<close>
  and \<open>key_field_value_to_system_id\<close>. In every case the client, and so every cache, is
  left as it was.
\<close>

theorem lookups_translate_missing:
  "((fst (get_group_id name st) = Inl GroupNotFoundError)
      = (name \<notin> fst ` set (archer_groups_name_to_id st)))
   \<and> (\<forall>v. map_of (archer_groups_name_to_id st) name = Some v
          \<longrightarrow> fst (get_group_id name st) = Inr v)
   \<and> snd (get_group_id name st) = st
   \<and> ((fst (get_vl_id_by_field_name name st) = Inl FieldNotFoundError)
      = (name \<notin> fst ` set (vl_name_to_vl_id st)))
   \<and> (\<forall>v. map_of (vl_name_to_vl_id st) name = Some v
          \<longrightarrow> fst (get_vl_id_by_field_name name st) = Inr v)
   \<and> snd (get_vl_id_by_field_name name st) = st
   \<and> ((fst (get_record_id_by_unique_value name st) = Inl RecordNotFoundError)
      = (name \<notin> fst ` set (key_field_value_to_system_id st)))
   \<and> (\<forall>v. map_of (key_field_value_to_system_id st) name = Some v
          \<longrightarrow> fst (get_record_id_by_unique_value name st) = Inr v)
   \<and> snd (get_record_id_by_unique_value name st) = st"
  by (simp add: get_group_id_def get_vl_id_by_field_name_def get_record_id_by_unique_value_def
        in_keys_iff split: option.splits)

theorem lookups_translate_missing_witness:
  "get_group_id ''Auditors'' loaded_client = (Inr 2, loaded_client)
   \<and> get_group_id ''Status'' loaded_client = (Inl GroupNotFoundError, loaded_client)
   \<and> get_vl_id_by_field_name ''Status'' loaded_client = (Inr 40, loaded_client)
   \<and> get_vl_id_by_field_name ''Title'' loaded_client = (Inl FieldNotFoundError, loaded_client)
   \<and> get_record_id_by_unique_value ''INC-1'' loaded_client = (Inr (PInt 9001), loaded_client)
   \<and> get_record_id_by_unique_value ''INC-2'' loaded_client
        = (Inl RecordNotFoundError, loaded_client)"
  using lookups_translate_missing [of "''Auditors''" loaded_client]
        lookups_translate_missing [of "''Status''" loaded_client]
        lookups_translate_missing [of "''Title''" loaded_client]
        lookups_translate_missing [of "''INC-1''" loaded_client]
        lookups_translate_missing [of "''INC-2''" loaded_client]
  by (simp add: get_group_id_def get_vl_id_by_field_name_def get_record_id_by_unique_value_def
        loaded_client_def fresh_client_def)

section \<open>Searching the groups\<close>

lemma str_in_iff: "str_in a b = (\<exists>p s. b = p @ a @ s)"
proof (induction b)
  case Nil
  then show ?case by auto
next
  case (Cons c cs)
  show ?case
  proof
    assume "str_in a (c # cs)"
    then consider "prefix a (c # cs)" | "str_in a cs" by auto
    then show "\<exists>p s. c # cs = p @ a @ s"
    proof cases
      case 1
      then obtain s where "c # cs = a @ s" by (auto simp: prefix_def)
      then have "c # cs = [] @ a @ s" by simp
      then show ?thesis by blast
    next
      case 2
      with Cons.IH obtain p s where "cs = p @ a @ s" by auto
      then have "c # cs = (c # p) @ a @ s" by simp
      then show ?thesis by blast
    qed
  next
    assume "\<exists>p s. c # cs = p @ a @ s"
    then obtain p s where ps: "c # cs = p @ a @ s" by auto
    show "str_in a (c # cs)"
    proof (cases p)
      case Nil
      with ps have "prefix a (c # cs)" by (simp add: prefix_def)
      then show ?thesis by simp
    next
      case (Cons x q)
      with ps have "cs = q @ a @ s" by simp
      with Cons.IH have "str_in a cs" by auto
      then show ?thesis by simp
    qed
  qed
qed

text \<open>
  Claim C5, as stated, fails: the cache holds the group \<open>Administrators\<close>, and
  \<open>find_group("Admin")\<close> returns it, although the two names differ.
\<close>

theorem find_group_exact_counterexample:
  "fst (find_group ''Admin'' loaded_client) = Inr [''Administrators'']
   \<and> ''Administrators'' \<noteq> ''Admin''"
  by (simp add: find_group_def loaded_client_def fresh_client_def)

text \<open>
  Claim C5, amended. For every non-empty query name, \<open>find_group(name)\<close> returns exactly
  the cached group names that contain \<open>name\<close> as a contiguous piece, in the order of
  the cache, and raises \<open>GroupNotFoundError\<close> exactly when no cached name contains it;
  \<open>get_group_id\<close> matches only the key equal to the name.
\<close>

theorem find_group_matches_substrings:
  "name \<noteq> [] \<longrightarrow>
     ((fst (find_group name st) = Inl GroupNotFoundError)
        = (\<forall>g \<in> fst ` set (archer_groups_name_to_id st). \<not> (\<exists>p s. g = p @ name @ s)))
   \<and> (\<forall>e. fst (find_group name st) = Inl e \<longrightarrow> e = GroupNotFoundError)
   \<and> (\<forall>ms. fst (find_group name st) = Inr ms \<longrightarrow>
          ms = filter (\<lambda>g. \<exists>p s. g = p @ name @ s) (map fst (archer_groups_name_to_id st)))
   \<and> snd (find_group name st) = st
   \<and> ((fst (get_group_id name st) = Inl GroupNotFoundError)
        = (name \<notin> fst ` set (archer_groups_name_to_id st)))
   \<and> (\<forall>gid. (fst (get_group_id name st) = Inr gid)
        = (map_of (archer_groups_name_to_id st) name = Some gid))"
proof -
  have "str_in name = (\<lambda>g. \<exists>p s. g = p @ name @ s)"
    by (rule ext) (rule str_in_iff)
  then have f: "filter (str_in name) xs = filter (\<lambda>g. \<exists>p s. g = p @ name @ s) xs" for xs
    by (simp only:)
  show ?thesis
    by (auto simp: find_group_def Let_def f filter_empty_conv get_group_id_def in_keys_iff
          split: option.splits)
qed

theorem find_group_matches_substrings_witness:
  "''Audit'' \<noteq> []
   \<and> fst (find_group ''Audit'' loaded_client) = Inr [''Auditors'']
   \<and> fst (find_group ''A'' loaded_client) = Inr [''Administrators'', ''Auditors'']
   \<and> fst (find_group ''Audit!'' loaded_client) = Inl GroupNotFoundError
   \<and> fst (get_group_id ''Audit'' loaded_client) = Inl GroupNotFoundError
   \<and> fst (get_group_id ''Auditors'' loaded_client) = Inr 2"
  using find_group_matches_substrings [of "''Audit''" loaded_client]
        find_group_matches_substrings [of "''Auditors''" loaded_client]
  by (simp add: find_group_def get_group_id_def loaded_client_def fresh_client_def)

section \<open>The payload of the model call\<close>

text \<open>
  Claim C7, as stated, fails: called without a system prompt, \<open>call_llm\<close> sends a payload
  of one message.
\<close>

theorem call_llm_two_messages_counterexample:
  "snd (call_llm echo_model ''Summarise the task'' None) =
     [\<lparr>model = ''gpt-4o'',
       messages = [\<lparr>role = ''user'', content = ''Summarise the task''\<rparr>],
       temperature = 7 / 10\<rparr>]
   \<and> length [\<lparr>role = ''user'', content = ''Summarise the task''\<rparr>] \<noteq> 2"
  by (simp add: call_llm_def echo_model_def)

text \<open>
  Claim C7, amended. Every invocation of \<open>call_llm(prompt, system_prompt)\<close> makes one call
  of the completion API, for the model \<open>gpt-4o\<close>. Its messages are a system message
  followed by the user prompt when \<open>system_prompt\<close> is a non-empty string, and the user
  prompt alone when it is \<open>None\<close> or empty. Nothing is said of what the invocation
  returns.
\<close>

theorem call_llm_payload:
  "\<exists>call. snd (call_llm create prompt system_prompt) = [call]
      \<and> model call = ''gpt-4o''
      \<and> messages call =
          (if truthy_str system_prompt
           then [\<lparr>role = ''system'', content = the system_prompt\<rparr>,
                 \<lparr>role = ''user'', content = prompt\<rparr>]
           else [\<lparr>role = ''user'', content = prompt\<rparr>])"
  by (auto simp: call_llm_def Let_def split: sum.splits)

theorem call_llm_payload_witness:
  "snd (call_llm echo_model ''Summarise the task'' (Some ''You are terse'')) =
     [\<lparr>model = ''gpt-4o'',
       messages = [\<lparr>role = ''system'', content = ''You are terse''\<rparr>,
                   \<lparr>role = ''user'', content = ''Summarise the task''\<rparr>],
       temperature = 7 / 10\<rparr>]
   \<and> snd (call_llm echo_model ''Summarise the task'' (Some [])) =
     [\<lparr>model = ''gpt-4o'',
       messages = [\<lparr>role = ''user'', content = ''Summarise the task''\<rparr>],
       temperature = 7 / 10\<rparr>]"
  using call_llm_payload [of echo_model "''Summarise the task''" "Some ''You are terse''"]
  by (simp add: call_llm_def echo_model_def)

text \<open>
  What the invocation does return: whenever the API answers, whatever its choices, the
  \<open>await\<close> of line 26 raises \<open>TypeError\<close>; the content of the first choice is never
  returned.
\<close>

lemma call_llm_never_returns:
  "fst (call_llm create prompt system_prompt) \<noteq> Inr c"
  by (simp add: call_llm_def Let_def split: sum.splits)

section \<open>Subform names that are not cached\<close>

text \<open>
  Claim C6 asks that \<open>create_sub_record\<close> and \<open>get_sub_record\<close> raise a named not-found
  error for a subform name that is no key of \<open>subforms_json_by_sf_name\<close>. The code reads
  \<open>self.subforms_json_by_sf_name[name]\<close> outside any \<open>try\<close>: for every such name
  \<open>get_sub_record\<close> raises the untranslated \<open>KeyError\<close>, and so does \<open>create_sub_record\<close>
  when the name is a field of the application (it raises \<open>FieldNotFoundError\<close> only when
  the name is no application field either). No request is sent in either case.
\<close>

theorem sub_record_names_not_translated:
  assumes "sub_record_name \<notin> fst ` set (subforms_json_by_sf_name st)"
  shows "get_sub_record srv mk_record sub_record_id sub_record_name st tr =
           (Inl KeyError, ensure_client st, tr)
    \<and> create_sub_record srv fields_json sub_record_name st tr =
           (if KStr sub_record_name \<in> fst ` set (application_fields_json st)
            then Inl KeyError else Inl FieldNotFoundError, ensure_client st, tr)
    \<and> KeyError \<notin> {ApplicationNotFoundError, GroupNotFoundError, FieldNotFoundError,
                     RecordNotFoundError}"
proof -
  from assms have none: "map_of (subforms_json_by_sf_name st) sub_record_name = None"
    by (simp add: map_of_eq_None_iff)
  have g: "get_sub_record srv mk_record sub_record_id sub_record_name st tr =
           (Inl KeyError, ensure_client st, tr)"
    using none by (simp add: get_sub_record_def subform_item_def Let_def)
  have c: "create_sub_record srv fields_json sub_record_name st tr =
           (if KStr sub_record_name \<in> fst ` set (application_fields_json st)
            then Inl KeyError else Inl FieldNotFoundError, ensure_client st, tr)"
  proof (cases "map_of (application_fields_json st) (KStr sub_record_name)")
    case None
    then have "KStr sub_record_name \<notin> fst ` set (application_fields_json st)"
      by (simp add: map_of_eq_None_iff)
    with None show ?thesis
      by (simp add: create_sub_record_def get_field_id_by_name_def Let_def)
  next
    case (Some e)
    then have "KStr sub_record_name \<in> fst ` set (application_fields_json st)"
      by (metis map_of_eq_None_iff option.distinct(1))
    with Some none show ?thesis
      by (simp add: create_sub_record_def get_field_id_by_name_def subform_item_def Let_def)
  qed
  from g c show ?thesis by simp
qed

theorem sub_record_names_not_translated_witness:
  "''Title'' \<notin> fst ` set (subforms_json_by_sf_name loaded_client)
   \<and> get_sub_record id_server plain_record 77 ''Title'' loaded_client [] =
       (Inl KeyError, loaded_client, [])
   \<and> create_sub_record id_server [] ''Title'' loaded_client [] =
       (Inl KeyError, loaded_client, [])
   \<and> get_sub_record id_server plain_record 77 ''Contacts'' fresh_client [] =
       (Inl KeyError, ensure_client fresh_client, [])"
  using sub_record_names_not_translated [of "''Title''" loaded_client id_server plain_record 77 "[]" "[]"]
        sub_record_names_not_translated [of "''Contacts''" fresh_client id_server plain_record 77 "[]" "[]"]
  by (simp add: ensure_client_loaded) (simp add: loaded_client_def fresh_client_def)

section \<open>The pagination loop\<close>

declare fetch_batches.simps [simp del]

lemma grc_request_ensure_client [simp]:
  "grc_request (ensure_client st) endpoint_url skip = grc_request st endpoint_url skip"
  by (simp add: grc_request_def)

lemma batch_requests_ensure_client [simp]:
  "batch_requests (ensure_client st) endpoint_url skip n = batch_requests st endpoint_url skip n"
  by (simp add: batch_requests_def)

lemma get_grc_endpoint_records_eq:
  "get_grc_endpoint_records srv endpoint_url (Some skip) st tr =
     (batch_of (srv tr (grc_request st endpoint_url skip)), ensure_client st,
      tr @ [Sent (grc_request st endpoint_url skip)])"
  by (simp add: get_grc_endpoint_records_def Let_def send_def grc_request_def batch_of_def
      split: sum.splits)

lemma batch_requests_0 [simp]: "batch_requests st endpoint_url skip 0 = []"
  by (simp add: batch_requests_def)

lemma batch_requests_Suc:
  "batch_requests st endpoint_url skip (Suc n) =
     Sent (grc_request st endpoint_url skip) # batch_requests st endpoint_url (skip + 1000) n"
proof -
  have "map (\<lambda>i. Sent (grc_request st endpoint_url (skip + 1000 * int i))) [0..<Suc n] =
        Sent (grc_request st endpoint_url skip) #
        map (\<lambda>i. Sent (grc_request st endpoint_url (skip + 1000 * int (Suc i)))) [0..<n]"
    by (simp only: map_upt_Suc) simp
  moreover have "skip + 1000 * int (Suc i) = skip + 1000 + 1000 * int i" for i
    by simp
  ultimately show ?thesis
    by (simp only: batch_requests_def)
qed

lemma fetch_batches_stop:
  "\<not> skip < max_records \<Longrightarrow>
   fetch_batches srv endpoint_url max_records skip cfb recs st tr = (Inr recs, st, tr)"
  by (subst fetch_batches.simps) simp

lemma fetch_batches_step:
  assumes "skip < max_records"
  shows "fetch_batches srv endpoint_url max_records skip cfb recs st tr =
    (let rep = srv tr (grc_request st endpoint_url skip);
         st1 = ensure_client st;
         tr1 = tr @ [Sent (grc_request st endpoint_url skip)]
     in case batch_of rep of
          Inl e \<Rightarrow> (Inl e, st1, tr1)
        | Inr batch \<Rightarrow>
            (if \<not> truthy batch then (Inr recs, st1, tr1)
             else case py_iter batch of
                    Inl e \<Rightarrow> (Inl e, st1, tr1)
                  | Inr items \<Rightarrow>
                      (case py_len batch of
                         Inl e \<Rightarrow> (Inl e, st1, tr1)
                       | Inr n \<Rightarrow>
                           (if n = 1000 \<and> \<not> cfb + 1 > 21
                            then fetch_batches srv endpoint_url max_records (skip + 1000)
                                   (cfb + 1) (recs @ items) st1 tr1
                            else (Inr (recs @ items), st1, tr1)))))"
  using assms
  by (subst fetch_batches.simps)
     (simp add: get_grc_endpoint_records_eq Let_def split: sum.splits)


lemma fetch_batches_run:
  "\<exists>n. snd (snd (fetch_batches srv endpoint_url max_records skip cfb recs st tr)) =
          tr @ batch_requests st endpoint_url skip n
     \<and> (n = 0 \<or> skip + 1000 * (int n - 1) < max_records)
     \<and> int n \<le> max 1 (22 - cfb)
     \<and> list_all full_batch (butlast (replies srv tr (batch_requests st endpoint_url skip n)))
     \<and> (\<forall>rs. fst (fetch_batches srv endpoint_url max_records skip cfb recs st tr) = Inr rs \<longrightarrow>
           rs = recs @ concat (map batch_items
                  (replies srv tr (batch_requests st endpoint_url skip n))))"
proof (induction "nat (max_records - skip)" arbitrary: skip cfb recs st tr rule: less_induct)
  case less
  let ?f = "fetch_batches srv endpoint_url max_records skip cfb recs st tr"
  show ?case
  proof (cases "skip < max_records")
    case False
    then have "?f = (Inr recs, st, tr)" by (rule fetch_batches_stop)
    then show ?thesis by (intro exI [of _ 0]) simp
  next
    case True
    let ?req = "grc_request st endpoint_url skip"
    let ?rep = "srv tr ?req"
    let ?st1 = "ensure_client st"
    let ?tr1 = "tr @ [Sent ?req]"
    let ?g = "fetch_batches srv endpoint_url max_records (skip + 1000) (cfb + 1)
                (recs @ batch_items ?rep) ?st1 ?tr1"
    have one: "batch_requests st endpoint_url skip (Suc 0) = [Sent ?req]"
      by (simp add: batch_requests_Suc)
    have alt: "(\<exists>res. ?f = (res, ?st1, ?tr1) \<and> (\<forall>rs. res = Inr rs \<longrightarrow> rs = recs @ batch_items ?rep))
       \<or> (full_batch ?rep \<and> cfb + 1 \<le> 21 \<and> ?f = ?g)"
      unfolding fetch_batches_step [OF True]
      by (auto simp: Let_def batch_items_def full_batch_def split: sum.splits)
    then show ?thesis
    proof
      assume "\<exists>res. ?f = (res, ?st1, ?tr1) \<and> (\<forall>rs. res = Inr rs \<longrightarrow> rs = recs @ batch_items ?rep)"
      then obtain res where f: "?f = (res, ?st1, ?tr1)"
        and r: "\<forall>rs. res = Inr rs \<longrightarrow> rs = recs @ batch_items ?rep" by blast
      show ?thesis
        using True r by (intro exI [of _ "Suc 0"]) (simp add: f one)
    next
      assume "full_batch ?rep \<and> cfb + 1 \<le> 21 \<and> ?f = ?g"
      then have full: "full_batch ?rep" and cfb: "cfb + 1 \<le> 21" and fg: "?f = ?g" by auto
      from True have "nat (max_records - (skip + 1000)) < nat (max_records - skip)" by simp
      from less.hyps [OF this, of "cfb + 1" "recs @ batch_items ?rep" ?st1 ?tr1]
      obtain n where
        tr: "snd (snd ?g) = ?tr1 @ batch_requests st endpoint_url (skip + 1000) n"
        and lim: "n = 0 \<or> skip + 1000 + 1000 * (int n - 1) < max_records"
        and cnt: "int n \<le> max 1 (22 - (cfb + 1))"
        and fulls: "list_all full_batch
                      (butlast (replies srv ?tr1 (batch_requests st endpoint_url (skip + 1000) n)))"
        and recsn: "\<forall>rs. fst ?g = Inr rs \<longrightarrow>
           rs = (recs @ batch_items ?rep) @ concat (map batch_items
                  (replies srv ?tr1 (batch_requests st endpoint_url (skip + 1000) n)))"
        by (simp only: batch_requests_ensure_client) blast
      have 1: "snd (snd ?f) = tr @ batch_requests st endpoint_url skip (Suc n)"
        using tr by (simp add: fg batch_requests_Suc)
      have 2: "Suc n = 0 \<or> skip + 1000 * (int (Suc n) - 1) < max_records"
        using lim True by auto
      have 3: "int (Suc n) \<le> max 1 (22 - cfb)"
        using cnt cfb by auto
      have 4: "list_all full_batch
                 (butlast (replies srv tr (batch_requests st endpoint_url skip (Suc n))))"
        using fulls full by (simp add: batch_requests_Suc)
      have 5: "\<forall>rs. fst ?f = Inr rs \<longrightarrow>
           rs = recs @ concat (map batch_items
                  (replies srv tr (batch_requests st endpoint_url skip (Suc n))))"
        using recsn by (simp add: fg batch_requests_Suc)
      from 1 2 3 4 5 show ?thesis by (intro exI [of _ "Suc n"]) (simp only: simp_thms)
    qed
  qed
qed

text \<open>
  Claim C3, as stated, fails at its last bound: for \<open>max_records = -1000\<close> the loop sends
  no request, and zero is more than \<open>ceil(max_records / 1000) = -1\<close>.
\<close>

theorem pagination_ceiling_counterexample:
  "snd (snd (build_unique_value_to_id_mapping short_server scalar_fmt ''Incidents'' ''Name'' []
               (- 1000) fresh_client [])) = []
   \<and> \<not> int (length (snd (snd (build_unique_value_to_id_mapping short_server scalar_fmt
               ''Incidents'' ''Name'' [] (- 1000) fresh_client [])))) 
         \<le> \<lceil>real_of_int (- 1000) / 1000\<rceil>"
  by (simp add: build_unique_value_to_id_mapping_def fetch_batches_stop)

text \<open>
  Claim C3, amended. \<open>build_unique_value_to_id_mapping\<close> fetches its batches one at a
  time with \<open>get_grc_endpoint_records\<close>: the requests it sends are those for the skips
  0, 1000, 2000, ..., one after the other, and nothing else. Every request but the last
  was answered with a full batch of 1000 records, so the loop stops at the first reply
  that raises, is empty or holds another number of records. For every server at most 22
  requests are sent, and at most \<open>max(0, ceil(max_records / 1000))\<close> (none when
  \<open>max_records\<close> is zero or negative, at most 22 for the default of 22000).
\<close>

theorem pagination_is_bounded:
  "\<exists>n. snd (snd (build_unique_value_to_id_mapping srv fmt endpoint_url key_value_field pfx
                   max_records st tr)) = tr @ batch_requests st endpoint_url 0 n
     \<and> n \<le> 22
     \<and> int n \<le> max 0 \<lceil>real_of_int max_records / 1000\<rceil>
     \<and> list_all full_batch (butlast (replies srv tr (batch_requests st endpoint_url 0 n)))"
proof -
  let ?f = "fetch_batches srv endpoint_url max_records 0 0 [] st tr"
  from fetch_batches_run [of srv endpoint_url max_records 0 0 "[]" st tr]
  obtain n where tr: "snd (snd ?f) = tr @ batch_requests st endpoint_url 0 n"
    and lim: "n = 0 \<or> 0 + 1000 * (int n - 1) < max_records"
    and cnt: "int n \<le> max 1 (22 - 0)"
    and fulls: "list_all full_batch (butlast (replies srv tr (batch_requests st endpoint_url 0 n)))"
    by blast
  have same: "snd (snd (build_unique_value_to_id_mapping srv fmt endpoint_url key_value_field pfx
                   max_records st tr)) = snd (snd ?f)"
    by (simp add: build_unique_value_to_id_mapping_def split: prod.splits sum.splits option.splits)
  have ceil: "int n \<le> max 0 \<lceil>real_of_int max_records / 1000\<rceil>"
  proof (cases "n = 0")
    case True
    then show ?thesis by simp
  next
    case False
    with lim have "1000 * (int n - 1) < max_records" by simp
    then have "real_of_int (int n - 1) < real_of_int max_records / 1000" by simp
    then have "int n - 1 < \<lceil>real_of_int max_records / 1000\<rceil>"
      by (simp only: less_ceiling_iff)
    then show ?thesis by simp
  qed
  from cnt have "n \<le> 22" by simp
  with tr same ceil fulls show ?thesis by metis
qed

lemma short_fetch:
  "fetch_batches short_server ''Incidents'' 22000 0 0 [] fresh_client [] =
     (Inr [PDict [(KStr ''Name'', PStr ''INC-7''), (KStr ''Incidents_Id'', PInt 70)],
           PDict [(KStr ''Incidents_Id'', PInt 71)],
           PDict [(KStr ''Name'', PStr ''INC-7''), (KStr ''Incidents_Id'', PInt 72)]],
      ensure_client fresh_client, [Sent (grc_request fresh_client ''Incidents'' 0)])"
  by (subst fetch_batches_step) (simp_all add: Let_def batch_of_def decoded_def short_server_def)

lemma short_run:
  "build_unique_value_to_id_mapping short_server scalar_fmt ''Incidents'' ''Name'' ''K:'' 22000
     fresh_client [] =
     (Inr [(''K:INC-7'', PInt 72)],
      (ensure_client fresh_client)\<lparr>key_field_value_to_system_id := [(''K:INC-7'', PInt 72)]\<rparr>,
      [Sent (grc_request fresh_client ''Incidents'' 0)])"
  by (simp add: build_unique_value_to_id_mapping_def short_fetch scalar_fmt_def)
     (simp add: fresh_client_def)

theorem pagination_is_bounded_witness:
  "snd (snd (build_unique_value_to_id_mapping short_server scalar_fmt ''Incidents'' ''Name''
               ''K:'' 22000 fresh_client [])) = [] @ batch_requests fresh_client ''Incidents'' 0 1
   \<and> (1::nat) \<le> 22 \<and> int 1 \<le> max 0 \<lceil>real_of_int 22000 / 1000\<rceil>
   \<and> list_all full_batch
        (butlast (replies short_server [] (batch_requests fresh_client ''Incidents'' 0 1)))"
  using pagination_is_bounded [of short_server scalar_fmt "''Incidents''" "''Name''" "''K:''"
          22000 fresh_client "[]"]
  by (simp add: short_run batch_requests_def)

section \<open>The mapping built from the gathered records\<close>

lemma build_mapping_spec:
  "build_mapping fmt endpoint_url key_value_field pfx recs m = (None, m') \<Longrightarrow>
   (filter (keyed_as fmt key_value_field pfx k) recs = [] \<longrightarrow> map_of m' k = map_of m k)
   \<and> (filter (keyed_as fmt key_value_field pfx k) recs \<noteq> [] \<longrightarrow>
        (\<exists>sid. getitem (last (filter (keyed_as fmt key_value_field pfx k) recs))
                 (KStr (endpoint_url @ ''_Id'')) = Inr sid
             \<and> map_of m' k = Some sid))"
proof (induction recs arbitrary: m)
  case Nil
  then show ?case by simp
next
  case (Cons rec rest)
  let ?P = "keyed_as fmt key_value_field pfx k"
  show ?case
  proof (cases "contains rec key_value_field")
    case (Inl e)
    with Cons.prems show ?thesis by simp
  next
    case (Inr b)
    show ?thesis
    proof (cases b)
      case False
      with Inr Cons.prems
      have "build_mapping fmt endpoint_url key_value_field pfx rest m = (None, m')" by simp
      from Cons.IH [OF this] Inr False show ?thesis by (simp add: keyed_as_def)
    next
      case True
      with Inr Cons.prems obtain v sid where
        v: "getitem rec (KStr key_value_field) = Inr v"
        and sid: "getitem rec (KStr (endpoint_url @ ''_Id'')) = Inr sid"
        and rest: "build_mapping fmt endpoint_url key_value_field pfx rest
                     (AList.update (pfx @ fmt v) sid m) = (None, m')"
        by (auto split: sum.splits)
      note IH = Cons.IH [OF rest]
      show ?thesis
      proof (cases "pfx @ fmt v = k")
        case same: True
        then have P: "?P rec" using Inr True v by (simp add: keyed_as_def)
        show ?thesis
        proof (cases "filter ?P rest = []")
          case True
          with IH have "map_of m' k = map_of (AList.update (pfx @ fmt v) sid m) k" by simp
          with same have "map_of m' k = Some sid" by (simp add: update_conv')
          with P True sid show ?thesis by simp
        next
          case False
          with IH P show ?thesis by simp
        qed
      next
        case diff: False
        then have P: "\<not> ?P rec" using v by (simp add: keyed_as_def)
        have "map_of (AList.update (pfx @ fmt v) sid m) k = map_of m k"
          using diff by (simp add: update_conv')
        with IH P show ?thesis by simp
      qed
    qed
  qed
qed


lemma ensure_client_idem [simp]: "ensure_client (ensure_client st) = ensure_client st"
  by (simp add: ensure_client_def)

lemma fetch_batches_state:
  "fst (snd (fetch_batches srv endpoint_url max_records skip cfb recs st tr)) = st
   \<or> fst (snd (fetch_batches srv endpoint_url max_records skip cfb recs st tr)) = ensure_client st"
proof (induction "nat (max_records - skip)" arbitrary: skip cfb recs st tr rule: less_induct)
  case less
  show ?case
  proof (cases "skip < max_records")
    case False
    then show ?thesis by (simp add: fetch_batches_stop)
  next
    case True
    then have m: "nat (max_records - (skip + 1000)) < nat (max_records - skip)" by simp
    have IH: "fst (snd (fetch_batches srv endpoint_url max_records (skip + 1000) c r
                          (ensure_client st) t)) = ensure_client st" for c r t
      using less.hyps [OF m, of c r "ensure_client st" t] by simp
    show ?thesis
      unfolding fetch_batches_step [OF True]
      by (simp add: Let_def IH split: sum.splits)
  qed
qed

lemma length_batch_requests [simp]: "length (batch_requests st endpoint_url skip n) = n"
  by (simp add: batch_requests_def)

lemma replies_batch_requests_Nil [simp]:
  "(replies srv tr (batch_requests st endpoint_url skip n) = []) = (n = 0)"
  by (cases n) (simp_all add: batch_requests_Suc)

lemma py_len_iter: "py_len b = Inr n \<Longrightarrow> py_iter b \<noteq> Inl e"
  by (cases b) simp_all

lemma fetch_batches_exact:
  "\<exists>n. snd (snd (fetch_batches srv endpoint_url max_records skip cfb recs st tr)) =
          tr @ batch_requests st endpoint_url skip n
     \<and> ((n = 0) = (\<not> skip < max_records))
     \<and> (0 < n \<longrightarrow> full_batch (last (replies srv tr (batch_requests st endpoint_url skip n)))
           \<longrightarrow> 21 < cfb + int n \<or> \<not> skip + 1000 * int n < max_records)"
proof (induction "nat (max_records - skip)" arbitrary: skip cfb recs st tr rule: less_induct)
  case less
  let ?f = "fetch_batches srv endpoint_url max_records skip cfb recs st tr"
  show ?case
  proof (cases "skip < max_records")
    case False
    then have "?f = (Inr recs, st, tr)" by (rule fetch_batches_stop)
    with False show ?thesis by (intro exI [of _ 0]) simp
  next
    case True
    let ?req = "grc_request st endpoint_url skip"
    let ?rep = "srv tr ?req"
    let ?st1 = "ensure_client st"
    let ?tr1 = "tr @ [Sent ?req]"
    let ?g = "fetch_batches srv endpoint_url max_records (skip + 1000) (cfb + 1)
                (recs @ batch_items ?rep) ?st1 ?tr1"
    have one: "batch_requests st endpoint_url skip (Suc 0) = [Sent ?req]"
      by (simp add: batch_requests_Suc)
    have alt: "(\<exists>res. ?f = (res, ?st1, ?tr1) \<and> (full_batch ?rep \<longrightarrow> 21 < cfb + 1))
       \<or> (full_batch ?rep \<and> cfb + 1 \<le> 21 \<and> ?f = ?g)"
      unfolding fetch_batches_step [OF True]
      by (auto simp: Let_def batch_items_def full_batch_def py_len_iter split: sum.splits)
    then show ?thesis
    proof
      assume "\<exists>res. ?f = (res, ?st1, ?tr1) \<and> (full_batch ?rep \<longrightarrow> 21 < cfb + 1)"
      then obtain res where f: "?f = (res, ?st1, ?tr1)"
        and c: "full_batch ?rep \<longrightarrow> 21 < cfb + 1" by blast
      show ?thesis
        using True c by (intro exI [of _ "Suc 0"]) (simp add: f one)
    next
      assume "full_batch ?rep \<and> cfb + 1 \<le> 21 \<and> ?f = ?g"
      then have full: "full_batch ?rep" and cfb: "cfb + 1 \<le> 21" and fg: "?f = ?g" by auto
      from True have "nat (max_records - (skip + 1000)) < nat (max_records - skip)" by simp
      from less.hyps [OF this, of "cfb + 1" "recs @ batch_items ?rep" ?st1 ?tr1]
      obtain n where
        tr: "snd (snd ?g) = ?tr1 @ batch_requests st endpoint_url (skip + 1000) n"
        and zero: "(n = 0) = (\<not> skip + 1000 < max_records)"
        and last: "0 < n \<longrightarrow>
            full_batch (last (replies srv ?tr1 (batch_requests st endpoint_url (skip + 1000) n)))
            \<longrightarrow> 21 < cfb + 1 + int n \<or> \<not> skip + 1000 + 1000 * int n < max_records"
        by (simp only: batch_requests_ensure_client) blast
      have 1: "snd (snd ?f) = tr @ batch_requests st endpoint_url skip (Suc n)"
        using tr by (simp add: fg batch_requests_Suc)
      have 2: "(Suc n = 0) = (\<not> skip < max_records)"
        using True by simp
      have 3: "0 < Suc n \<longrightarrow>
           full_batch (last (replies srv tr (batch_requests st endpoint_url skip (Suc n))))
           \<longrightarrow> 21 < cfb + int (Suc n) \<or> \<not> skip + 1000 * int (Suc n) < max_records"
      proof (cases "n = 0")
        case True
        with zero show ?thesis by simp
      next
        case False
        then have "last (replies srv tr (batch_requests st endpoint_url skip (Suc n))) =
                   last (replies srv ?tr1 (batch_requests st endpoint_url (skip + 1000) n))"
          by (simp add: batch_requests_Suc)
        with last False show ?thesis by (simp add: algebra_simps)
      qed
      from 1 2 3 show ?thesis by (intro exI [of _ "Suc n"]) (simp only: simp_thms)
    qed
  qed
qed

text \<open>
  Claim C4. When \<open>build_unique_value_to_id_mapping(endpoint_url, key_value_field, prefix,
  max_records)\<close> returns, it returns the cache \<open>key_field_value_to_system_id\<close>. The
  batches fetched are those for the skips 0, 1000, 2000, ...: none when \<open>max_records\<close> is
  not positive and at least one otherwise; every batch but the last is a full one of 1000
  records, and the loop goes on after a full batch unless 22 batches have been fetched or
  the next skip reaches \<open>max_records\<close>. The records gathered are the records of all these
  batches, in order. A key under which no gathered record is stored keeps the entry it
  had, or none: a record lacking the key field adds nothing and the entries under other
  keys are kept. A key \<open>k\<close> that is the prefix followed by the text of the key field's value
  of some gathered record maps to the value that the last such record holds under
  \<open>"{endpoint_url}_Id"\<close>: later records overwrite earlier ones.
\<close>

theorem mapping_holds_gathered_records:
  assumes "build_unique_value_to_id_mapping srv fmt endpoint_url key_value_field pfx
             max_records st tr = (Inr m, st', tr')"
  shows "key_field_value_to_system_id st' = m
    \<and> (\<exists>n recs. tr' = tr @ batch_requests st endpoint_url 0 n
          \<and> ((n = 0) = (max_records \<le> 0))
          \<and> (\<forall>rep \<in> set (butlast (replies srv tr (batch_requests st endpoint_url 0 n))).
                full_batch rep)
          \<and> (0 < n \<longrightarrow>
                full_batch (last (replies srv tr (batch_requests st endpoint_url 0 n))) \<longrightarrow>
                22 \<le> n \<or> max_records \<le> 1000 * int n)
          \<and> recs = concat (map batch_items
                      (replies srv tr (batch_requests st endpoint_url 0 n)))
          \<and> (\<forall>k. (filter (keyed_as fmt key_value_field pfx k) recs = [] \<longrightarrow>
                     map_of m k = map_of (key_field_value_to_system_id st) k)
                \<and> (filter (keyed_as fmt key_value_field pfx k) recs \<noteq> [] \<longrightarrow>
                     (\<exists>sid. getitem (last (filter (keyed_as fmt key_value_field pfx k) recs))
                              (KStr (endpoint_url @ ''_Id'')) = Inr sid
                          \<and> map_of m k = Some sid))))"
proof -
  let ?f = "fetch_batches srv endpoint_url max_records 0 0 [] st tr"
  obtain res st1 tr1 where f: "?f = (res, st1, tr1)" by (cases ?f)
  from assms f obtain all_records where res: "res = Inr all_records"
    by (cases res) (simp_all add: build_unique_value_to_id_mapping_def)
  from fetch_batches_state [of srv endpoint_url max_records 0 0 "[]" st tr] f
  have st1: "key_field_value_to_system_id st1 = key_field_value_to_system_id st"
    by auto
  from assms f res
  have bm: "build_mapping fmt endpoint_url key_value_field pfx all_records
              (key_field_value_to_system_id st) = (None, m)"
    and st': "st' = st1\<lparr>key_field_value_to_system_id := m\<rparr>" and tr': "tr' = tr1"
    by (auto simp: build_unique_value_to_id_mapping_def st1 split: prod.splits option.splits)
  from fetch_batches_run [of srv endpoint_url max_records 0 0 "[]" st tr] f res
  obtain n where n: "tr1 = tr @ batch_requests st endpoint_url 0 n"
    and fulls: "list_all full_batch
                  (butlast (replies srv tr (batch_requests st endpoint_url 0 n)))"
    and recs: "all_records = concat (map batch_items
                      (replies srv tr (batch_requests st endpoint_url 0 n)))"
    by auto
  from fetch_batches_exact [of srv endpoint_url max_records 0 0 "[]" st tr] f
  obtain n' where n': "tr1 = tr @ batch_requests st endpoint_url 0 n'"
    and zero: "(n' = 0) = (\<not> 0 < max_records)"
    and stop: "0 < n' \<longrightarrow>
           full_batch (last (replies srv tr (batch_requests st endpoint_url 0 n')))
           \<longrightarrow> 21 < 0 + int n' \<or> \<not> 0 + 1000 * int n' < max_records"
    by auto
  from n n' have "length (batch_requests st endpoint_url 0 n) =
                  length (batch_requests st endpoint_url 0 n')" by simp
  then have nn: "n' = n" by simp
  have a: "(n = 0) = (max_records \<le> 0)" using zero nn by auto
  have b: "\<forall>rep \<in> set (butlast (replies srv tr (batch_requests st endpoint_url 0 n))).
             full_batch rep"
    using fulls by (simp add: list_all_iff)
  have c: "0 < n \<longrightarrow>
             full_batch (last (replies srv tr (batch_requests st endpoint_url 0 n))) \<longrightarrow>
             22 \<le> n \<or> max_records \<le> 1000 * int n"
    using stop nn by auto
  have d: "\<forall>k. (filter (keyed_as fmt key_value_field pfx k) all_records = [] \<longrightarrow>
                     map_of m k = map_of (key_field_value_to_system_id st) k)
                \<and> (filter (keyed_as fmt key_value_field pfx k) all_records \<noteq> [] \<longrightarrow>
                     (\<exists>sid. getitem (last (filter (keyed_as fmt key_value_field pfx k) all_records))
                              (KStr (endpoint_url @ ''_Id'')) = Inr sid
                          \<and> map_of m k = Some sid))"
    using build_mapping_spec [OF bm] by blast
  have "\<exists>n recs. tr' = tr @ batch_requests st endpoint_url 0 n
          \<and> ((n = 0) = (max_records \<le> 0))
          \<and> (\<forall>rep \<in> set (butlast (replies srv tr (batch_requests st endpoint_url 0 n))).
                full_batch rep)
          \<and> (0 < n \<longrightarrow>
                full_batch (last (replies srv tr (batch_requests st endpoint_url 0 n))) \<longrightarrow>
                22 \<le> n \<or> max_records \<le> 1000 * int n)
          \<and> recs = concat (map batch_items
                      (replies srv tr (batch_requests st endpoint_url 0 n)))
          \<and> (\<forall>k. (filter (keyed_as fmt key_value_field pfx k) recs = [] \<longrightarrow>
                     map_of m k = map_of (key_field_value_to_system_id st) k)
                \<and> (filter (keyed_as fmt key_value_field pfx k) recs \<noteq> [] \<longrightarrow>
                     (\<exists>sid. getitem (last (filter (keyed_as fmt key_value_field pfx k) recs))
                              (KStr (endpoint_url @ ''_Id'')) = Inr sid
                          \<and> map_of m k = Some sid)))"
    apply (rule exI [of _ n])
    apply (rule exI [of _ all_records])
    using n tr' a b c recs d apply (simp only: simp_thms)
    done
  with st' show ?thesis by simp
qed

lemma build_mapping_fillers:
  "contains filler key_value_field = Inr False \<Longrightarrow>
   build_mapping fmt endpoint_url key_value_field pfx (replicate j filler @ rest) m =
   build_mapping fmt endpoint_url key_value_field pfx rest m"
  by (induction j) simp_all

lemma two_page_fetch:
  "fetch_batches two_page_server ''Incidents'' 22000 0 0 [] loaded_client [] =
     (Inr (PDict [(KStr ''Name'', PStr ''INC-7''), (KStr ''Incidents_Id'', PInt 70)] #
           replicate 999 (PDict [(KStr ''Incidents_Id'', PInt 71)]) @
           [PDict [(KStr ''Name'', PStr ''INC-7''), (KStr ''Incidents_Id'', PInt 72)],
            PDict [(KStr ''Name'', PStr ''INC-8''), (KStr ''Incidents_Id'', PInt 80)]]),
      loaded_client,
      [Sent (grc_request loaded_client ''Incidents'' 0),
       Sent (grc_request loaded_client ''Incidents'' 1000)])"
proof -
  have u0: "url (grc_request loaded_client ''Incidents'' 0) =
              ''https://grc.example/RSAarcher/contentapi/Incidents?$skip=0''"
    by (simp add: grc_request_def loaded_client_def fresh_client_def str_int_def digits_small)
  have u1: "url (grc_request loaded_client ''Incidents'' 1000) =
              ''https://grc.example/RSAarcher/contentapi/Incidents?$skip=1000''"
    by (simp add: grc_request_def loaded_client_def fresh_client_def str_int_def
        digits_small digits_big)
  have second: "fetch_batches two_page_server ''Incidents'' 22000 1000 1 recs loaded_client tr =
     (Inr (recs @
           [PDict [(KStr ''Name'', PStr ''INC-7''), (KStr ''Incidents_Id'', PInt 72)],
            PDict [(KStr ''Name'', PStr ''INC-8''), (KStr ''Incidents_Id'', PInt 80)]]),
      loaded_client, tr @ [Sent (grc_request loaded_client ''Incidents'' 1000)])" for recs tr
    by (subst fetch_batches_step)
       (simp_all add: Let_def batch_of_def decoded_def two_page_server_def u1
          ensure_client_loaded)
  show ?thesis
    by (subst fetch_batches_step)
       (simp_all add: Let_def batch_of_def decoded_def two_page_server_def u0
          ensure_client_loaded second)
qed

lemma two_page_run:
  "build_unique_value_to_id_mapping two_page_server scalar_fmt ''Incidents'' ''Name'' ''K:''
     22000 loaded_client [] =
     (Inr [(''INC-1'', PInt 9001), (''K:INC-7'', PInt 72), (''K:INC-8'', PInt 80)],
      loaded_client\<lparr>key_field_value_to_system_id :=
        [(''INC-1'', PInt 9001), (''K:INC-7'', PInt 72), (''K:INC-8'', PInt 80)]\<rparr>,
      [Sent (grc_request loaded_client ''Incidents'' 0),
       Sent (grc_request loaded_client ''Incidents'' 1000)])"
proof -
  have m0: "key_field_value_to_system_id loaded_client = [(''INC-1'', PInt 9001)]"
    by (simp add: loaded_client_def fresh_client_def)
  show ?thesis
    by (simp add: build_unique_value_to_id_mapping_def two_page_fetch scalar_fmt_def
        build_mapping_fillers m0)
qed

theorem mapping_holds_gathered_records_witness:
  "build_unique_value_to_id_mapping two_page_server scalar_fmt ''Incidents'' ''Name'' ''K:''
     22000 loaded_client [] =
     (Inr [(''INC-1'', PInt 9001), (''K:INC-7'', PInt 72), (''K:INC-8'', PInt 80)],
      loaded_client\<lparr>key_field_value_to_system_id :=
        [(''INC-1'', PInt 9001), (''K:INC-7'', PInt 72), (''K:INC-8'', PInt 80)]\<rparr>,
      [Sent (grc_request loaded_client ''Incidents'' 0),
       Sent (grc_request loaded_client ''Incidents'' 1000)])
   \<and> [Sent (grc_request loaded_client ''Incidents'' 0),
       Sent (grc_request loaded_client ''Incidents'' 1000)] =
      [] @ batch_requests loaded_client ''Incidents'' 0 2
   \<and> full_batch (two_page_server [] (grc_request loaded_client ''Incidents'' 0))
   \<and> key_field_value_to_system_id
        (loaded_client\<lparr>key_field_value_to_system_id :=
           [(''INC-1'', PInt 9001), (''K:INC-7'', PInt 72), (''K:INC-8'', PInt 80)]\<rparr>)
       = [(''INC-1'', PInt 9001), (''K:INC-7'', PInt 72), (''K:INC-8'', PInt 80)]"
proof -
  have u0: "url (grc_request loaded_client ''Incidents'' 0) =
              ''https://grc.example/RSAarcher/contentapi/Incidents?$skip=0''"
    by (simp add: grc_request_def loaded_client_def fresh_client_def str_int_def digits_small)
  have full: "full_batch (two_page_server [] (grc_request loaded_client ''Incidents'' 0))"
    by (simp add: full_batch_def batch_of_def decoded_def two_page_server_def u0)
  have reqs: "[Sent (grc_request loaded_client ''Incidents'' 0),
       Sent (grc_request loaded_client ''Incidents'' 1000)] =
      [] @ batch_requests loaded_client ''Incidents'' 0 2"
    by (simp add: batch_requests_def numeral_2_eq_2)
  show ?thesis
    using mapping_holds_gathered_records [OF two_page_run] full reqs
    by (simp only: two_page_run simp_thms archer.simps)
qed

section \<open>Only the login is retried\<close>

lemma decoded_failed:
  "failed rep \<Longrightarrow> decoded ArcherAPIError rep = Inl (translated rep)"
  by (cases rep) (simp_all add: failed_def decoded_def translated_def)

lemma unretriedI_none: "snd (snd out) = tr \<Longrightarrow> unretried srv tr out"
  by (simp add: unretried_def)

lemma unretriedI_one:
  "snd (snd out) = tr @ [Sent r] \<Longrightarrow>
   (failed (srv tr r) \<Longrightarrow> fst out = Inl (translated (srv tr r))) \<Longrightarrow>
   unretried srv tr out"
  by (simp add: unretried_def)

lemma at_most_onceI_none: "snd (snd out) = tr \<Longrightarrow> at_most_once tr out"
  by (simp add: at_most_once_def)

lemma at_most_onceI_one: "snd (snd out) = tr @ [Sent r] \<Longrightarrow> at_most_once tr out"
  by (simp add: at_most_once_def)

lemma get_users_once:
  "unretried srv tr (get_users srv mk_user params st tr)
   \<and> at_most_once tr (get_users srv mk_user params st tr)"
proof -
  let ?r = "\<lparr>verb = POST, url = api_url_base st @ ''core/system/user/'' @ params,
             req_headers = headers st, json = None\<rparr>"
  have t: "snd (snd (get_users srv mk_user params st tr)) = tr @ [Sent ?r]"
    by (simp add: get_users_def Let_def send_def split: sum.splits)
  have f: "fst (get_users srv mk_user params st tr) = Inl (translated (srv tr ?r))"
    if "failed (srv tr ?r)"
    using decoded_failed [OF that] by (simp add: get_users_def Let_def send_def)
  from t f show ?thesis
    by (blast intro: unretriedI_one at_most_onceI_one)
qed


lemma decoded_call_unretried:
  "unretried srv tr
     (case decoded ArcherAPIError (srv tr r) of
        Inl e \<Rightarrow> (Inl e, s, tr @ [Sent r])
      | Inr data \<Rightarrow> (g data, s, tr @ [Sent r]))"
  by (cases "srv tr r")
     (simp_all add: unretried_def decoded_def failed_def translated_def)

lemma decoded_call_once:
  "at_most_once tr
     (case decoded ArcherAPIError (srv tr r) of
        Inl e \<Rightarrow> (Inl e, s, tr @ [Sent r])
      | Inr data \<Rightarrow> (g data, s, tr @ [Sent r]))"
  by (cases "decoded ArcherAPIError (srv tr r)") (simp_all add: at_most_once_def)

lemma create_content_record_once:
  "unretried srv tr (create_content_record srv fields_json record_id st tr)
   \<and> at_most_once tr (create_content_record srv fields_json record_id st tr)"
proof (cases "transform_fields (ensure_client st) fields_json []")
  case (Inl e)
  then show ?thesis
    by (simp add: create_content_record_def Let_def unretriedI_none at_most_onceI_none)
next
  case (Inr transformed_json)
  then show ?thesis
    by (cases "truthy_int record_id")
       (simp_all add: create_content_record_def Let_def send_def
          decoded_call_unretried decoded_call_once)
qed

lemma create_sub_record_once:
  "unretried srv tr (create_sub_record srv fields_json subform_name st tr)
   \<and> at_most_once tr (create_sub_record srv fields_json subform_name st tr)"
proof (cases "get_field_id_by_name subform_name None (ensure_client st)")
  case (Inl e)
  then show ?thesis
    by (simp add: create_sub_record_def Let_def unretriedI_none at_most_onceI_none)
next
  case a: (Inr subform_field_id)
  show ?thesis
  proof (cases "subform_item (ensure_client st) subform_name (KStr ''LevelId'')")
    case (Inl e)
    with a show ?thesis
      by (simp add: create_sub_record_def Let_def unretriedI_none at_most_onceI_none)
  next
    case b: (Inr subform_level_id)
    show ?thesis
    proof (cases "transform_sub_fields (ensure_client st) subform_name fields_json []")
      case (Inl e)
      with a b show ?thesis
        by (simp add: create_sub_record_def Let_def unretriedI_none at_most_onceI_none)
    next
      case (Inr transformed_json)
      with a b show ?thesis
        by (simp add: create_sub_record_def Let_def send_def
            decoded_call_unretried decoded_call_once)
    qed
  qed
qed

lemma get_user_by_id_once:
  "unretried srv tr (get_user_by_id srv mk_user user_id st tr)
   \<and> at_most_once tr (get_user_by_id srv mk_user user_id st tr)"
  unfolding unretried_def at_most_once_def
  by (auto simp: get_user_by_id_def Let_def send_def decoded_def failed_def translated_def
      split: reply.splits sum.splits)

lemma get_all_groups_once:
  "unretried srv tr (get_all_groups srv st tr)
   \<and> at_most_once tr (get_all_groups srv st tr)"
  unfolding unretried_def at_most_once_def
  by (auto simp: get_all_groups_def Let_def send_def decoded_def failed_def translated_def
      split: reply.splits sum.splits)

lemma delete_record_once:
  "unretried srv tr (delete_record srv record_id st tr)
   \<and> at_most_once tr (delete_record srv record_id st tr)"
  unfolding unretried_def at_most_once_def
  by (auto simp: delete_record_def Let_def send_def decoded_def failed_def translated_def
      split: reply.splits sum.splits)

lemma post_attachment_once:
  "unretried srv tr (post_attachment srv name base64_string st tr)
   \<and> at_most_once tr (post_attachment srv name base64_string st tr)"
  unfolding unretried_def at_most_once_def
  by (auto simp: post_attachment_def Let_def send_def decoded_def failed_def translated_def
      split: reply.splits sum.splits)

lemma get_record_once:
  "unretried srv tr (get_record srv mk_record record_id st tr)
   \<and> at_most_once tr (get_record srv mk_record record_id st tr)"
  unfolding unretried_def at_most_once_def
  by (auto simp: get_record_def Let_def send_def decoded_def failed_def translated_def
      split: reply.splits sum.splits)

lemma find_grc_endpoint_url_once:
  "unretried srv tr (find_grc_endpoint_url srv app_name st tr)
   \<and> at_most_once tr (find_grc_endpoint_url srv app_name st tr)"
  unfolding unretried_def at_most_once_def
  by (auto simp: find_grc_endpoint_url_def Let_def send_def decoded_def failed_def translated_def
      split: reply.splits sum.splits)

lemma get_value_id_by_field_name_and_value_once:
  "unretried srv tr (get_value_id_by_field_name_and_value srv field_name v st tr)
   \<and> at_most_once tr (get_value_id_by_field_name_and_value srv field_name v st tr)"
  unfolding unretried_def at_most_once_def
  by (auto simp: get_value_id_by_field_name_and_value_def Let_def send_def decoded_def failed_def translated_def
      split: reply.splits sum.splits)



lemma get_sub_record_once:
  "unretried srv tr (get_sub_record srv mk_record sub_record_id sub_record_name st tr)
   \<and> at_most_once tr (get_sub_record srv mk_record sub_record_id sub_record_name st tr)"
  unfolding unretried_def at_most_once_def
  by (auto simp: get_sub_record_def Let_def send_def decoded_def failed_def translated_def
      split: reply.splits sum.splits)

lemma get_grc_endpoint_records_once:
  "unretried srv tr (get_grc_endpoint_records srv endpoint_url skip st tr)
   \<and> at_most_once tr (get_grc_endpoint_records srv endpoint_url skip st tr)"
  unfolding unretried_def at_most_once_def
  by (auto simp: get_grc_endpoint_records_def Let_def send_def decoded_def failed_def translated_def
      split: reply.splits sum.splits)

lemma get_subform_fields_by_id_once:
  "unretried srv tr (get_subform_fields_by_id srv subform_id st tr)
   \<and> at_most_once tr (get_subform_fields_by_id srv subform_id st tr)"
  unfolding unretried_def at_most_once_def
  by (auto simp: get_subform_fields_by_id_def Let_def send_def decoded_def failed_def translated_def
      split: reply.splits sum.splits)

lemma replies_append:
  "replies srv tr (evs1 @ evs2) = replies srv tr evs1 @ replies srv (tr @ evs1) evs2"
proof (induction evs1 arbitrary: tr)
  case Nil
  then show ?case by simp
next
  case (Cons e evs1)
  then show ?case by (cases e) simp_all
qed

lemma unretried_after:
  assumes tr1: "tr1 = tr @ evs1"
    and nosleep: "\<forall>k. Slept k \<notin> set evs1"
    and good: "\<forall>rep \<in> set (replies srv tr evs1). \<not> failed rep"
    and rest: "unretried srv tr1 out"
  shows "unretried srv tr out"
proof -
  from rest obtain evs2 where t: "snd (snd out) = tr1 @ evs2"
    and s: "\<forall>k. Slept k \<notin> set evs2"
    and b: "\<forall>rep \<in> set (butlast (replies srv tr1 evs2)). \<not> failed rep"
    and l: "replies srv tr1 evs2 \<noteq> [] \<longrightarrow> failed (last (replies srv tr1 evs2)) \<longrightarrow>
            fst out = Inl (translated (last (replies srv tr1 evs2)))"
    unfolding unretried_def by blast
  let ?r1 = "replies srv tr evs1" and ?r2 = "replies srv tr1 evs2"
  have reps: "replies srv tr (evs1 @ evs2) = ?r1 @ ?r2"
    by (simp add: replies_append tr1)
  have 1: "snd (snd out) = tr @ (evs1 @ evs2)" using t tr1 by simp
  have 2: "\<forall>k. Slept k \<notin> set (evs1 @ evs2)" using nosleep s by simp
  have 3: "\<forall>rep \<in> set (butlast (?r1 @ ?r2)). \<not> failed rep"
  proof (cases "?r2 = []")
    case True
    with good show ?thesis by (auto dest: in_set_butlastD)
  next
    case False
    with good b show ?thesis by (auto simp: butlast_append)
  qed
  have 4: "?r1 @ ?r2 \<noteq> [] \<longrightarrow> failed (last (?r1 @ ?r2)) \<longrightarrow>
            fst out = Inl (translated (last (?r1 @ ?r2)))"
  proof (cases "?r2 = []")
    case True
    with good show ?thesis by auto
  next
    case False
    with l show ?thesis by simp
  qed
  show ?thesis
    unfolding unretried_def
    using 1 2 3 4 by (intro exI [of _ "evs1 @ evs2"]) (simp only: reps simp_thms)
qed

lemma unretried_after_one:
  assumes "\<not> failed (srv tr r)" and "unretried srv (tr @ [Sent r]) out"
  shows "unretried srv tr out"
proof (rule unretried_after [where ?evs1.0 = "[Sent r]" and ?tr1.0 = "tr @ [Sent r]"])
  show "tr @ [Sent r] = tr @ [Sent r]" by simp
  show "\<forall>k. Slept k \<notin> set [Sent r]" by simp
  show "\<forall>rep \<in> set (replies srv tr [Sent r]). \<not> failed rep" using assms(1) by simp
  show "unretried srv (tr @ [Sent r]) out" by (rule assms(2))
qed

lemma get_subform_fields_by_id_shape:
  "\<exists>r. snd (snd (get_subform_fields_by_id srv subform_id st tr)) = tr @ [Sent r]
       \<and> (failed (srv tr r) \<longrightarrow>
            fst (get_subform_fields_by_id srv subform_id st tr) = Inl (translated (srv tr r)))"
  by (auto simp: get_subform_fields_by_id_def Let_def send_def decoded_def failed_def
      translated_def split: reply.splits sum.splits)

lemma application_fields_loop_unretried:
  "unretried srv tr (application_fields_loop srv rows level st tr)"
proof (induction rows arbitrary: level st tr)
  case Nil
  show ?case by (simp add: unretriedI_none)
next
  case (Cons field rest)
  have stop: "unretried srv tr (Inl e, s, tr)" for e :: error and s
    by (simp add: unretriedI_none)
  have sub: "unretried srv tr
      (case get_subform_fields_by_id srv subform_id s tr of
         (Inl e, st2, tr2) \<Rightarrow> (Inl e, st2, tr2)
       | (Inr (subform_fields, all_fields), st2, tr2) \<Rightarrow>
           application_fields_loop srv rest l (h st2 subform_fields all_fields) tr2)"
    for subform_id s l h
  proof -
    let ?g = "get_subform_fields_by_id srv subform_id s tr"
    from get_subform_fields_by_id_shape [of srv subform_id s tr]
    obtain r where t: "snd (snd ?g) = tr @ [Sent r]"
      and f: "failed (srv tr r) \<longrightarrow> fst ?g = Inl (translated (srv tr r))" by blast
    obtain res st2 tr2 where g: "?g = (res, st2, tr2)" by (cases ?g)
    with t have tr2: "tr2 = tr @ [Sent r]" by simp
    show ?thesis
    proof (cases res)
      case (Inl e)
      have "unretried srv tr (Inl e :: error + int option, st2, tr @ [Sent r])"
        using f g Inl by (intro unretriedI_one [where r = r]) simp_all
      with Inl g tr2 show ?thesis by simp
    next
      case (Inr p)
      with g f have nf: "\<not> failed (srv tr r)" by auto
      obtain sf af where p: "p = (sf, af)" by (cases p)
      from Cons.IH [of "tr @ [Sent r]" l "h st2 sf af"]
      have "unretried srv tr (application_fields_loop srv rest l (h st2 sf af) (tr @ [Sent r]))"
        by (rule unretried_after_one [of srv tr r, OF nf])
      with Inr g tr2 p show ?thesis by simp
    qed
  qed
  show ?case
  proof (cases "getitem field (KStr ''RequestedObject'')")
    case (Inl e)
    then show ?thesis by (simp add: stop)
  next
    case req: (Inr req_obj)
    show ?thesis
    proof (cases "item_str req_obj ''Name''")
      case (Inl e)
      with req show ?thesis by (simp add: stop)
    next
      case name: (Inr name)
      show ?thesis
      proof (cases "item_int req_obj ''Id''")
        case (Inl e)
        with req name show ?thesis by (simp add: stop)
      next
        case fid: (Inr field_id)
        show ?thesis
        proof (cases "item_int req_obj ''LevelId''")
          case (Inl e)
          with req name fid show ?thesis by (simp add: stop)
        next
          case lvl: (Inr level_id)
          show ?thesis
          proof (cases "getitem req_obj (KStr ''Type'')")
            case (Inl e)
            with req name fid lvl show ?thesis by (simp add: stop)
          next
            case ty: (Inr field_type)
            consider (vl) "field_type = PInt 4" | (sf) "field_type = PInt 24"
              | (other) "field_type \<noteq> PInt 4" "field_type \<noteq> PInt 24" by blast
            then show ?thesis
            proof cases
              case vl
              with req name fid lvl ty show ?thesis
                by (cases "item_int req_obj ''RelatedValuesListId''")
                   (simp_all add: Let_def stop Cons.IH)
            next
              case sf
              show ?thesis
              proof (cases "item_int req_obj ''RelatedSubformId''")
                case (Inl e)
                with sf req name fid lvl ty show ?thesis by (simp add: Let_def stop)
              next
                case (Inr subform_id)
                with sf req name fid lvl ty show ?thesis
                  by (simp only: application_fields_loop.simps sum.case Let_def if_True
                        pyval.inject) (simp add: sub)
              qed
            next
              case other
              with req name fid lvl ty show ?thesis
                by (simp add: Let_def Cons.IH)
            qed
          qed
        qed
      qed
    qed
  qed
qed

lemma unretried_same:
  assumes "unretried srv tr out"
    and "snd (snd out') = snd (snd out)"
    and "\<And>e. fst out = Inl e \<Longrightarrow> fst out' = Inl e"
  shows "unretried srv tr out'"
proof -
  from assms(1) obtain evs where e: "snd (snd out) = tr @ evs"
    "\<forall>k. Slept k \<notin> set evs"
    "\<forall>rep \<in> set (butlast (replies srv tr evs)). \<not> failed rep"
    "replies srv tr evs \<noteq> [] \<longrightarrow> failed (last (replies srv tr evs)) \<longrightarrow>
       fst out = Inl (translated (last (replies srv tr evs)))"
    unfolding unretried_def by blast
  from e(4) assms(3)
  have "replies srv tr evs \<noteq> [] \<longrightarrow> failed (last (replies srv tr evs)) \<longrightarrow>
       fst out' = Inl (translated (last (replies srv tr evs)))" by blast
  with e(1,2,3) assms(2) show ?thesis
    unfolding unretried_def by (intro exI [of _ evs]) simp
qed

lemma get_application_fields_unretried:
  "unretried srv tr (get_application_fields srv application_id st tr)"
proof -
  let ?r = "\<lparr>verb = GET,
             url = api_url_base st @ ''core/system/fielddefinition/application/'' @
                   str_int application_id @ ''?$filter=IsActive eq true'',
             req_headers = headers st, json = None\<rparr>"
  let ?tr1 = "tr @ [Sent ?r]"
  show ?thesis
  proof (cases "decoded ArcherAPIError (srv tr ?r)")
    case (Inl e)
    have "failed (srv tr ?r) \<Longrightarrow> e = translated (srv tr ?r)"
      using Inl decoded_failed by fastforce
    with Inl show ?thesis
      by (intro unretriedI_one [where r = ?r])
         (simp_all add: get_application_fields_def Let_def send_def)
  next
    case (Inr data)
    then have nf: "\<not> failed (srv tr ?r)" using decoded_failed by fastforce
    show ?thesis
    proof (cases "py_iter data")
      case (Inl e)
      with Inr nf show ?thesis
        by (intro unretriedI_one [where r = ?r])
           (simp_all add: get_application_fields_def Let_def send_def)
    next
      case rows: (Inr rows)
      let ?l = "application_fields_loop srv rows None (ensure_client st) ?tr1"
      have l: "unretried srv ?tr1 ?l" by (rule application_fields_loop_unretried)
      have "unretried srv ?tr1 (get_application_fields srv application_id st tr)"
      proof (rule unretried_same [OF l])
        show "snd (snd (get_application_fields srv application_id st tr)) = snd (snd ?l)"
          using Inr rows
          by (cases ?l)
             (auto simp: get_application_fields_def Let_def send_def
               split: sum.splits option.splits)
        show "fst ?l = Inl e \<Longrightarrow>
              fst (get_application_fields srv application_id st tr) = Inl e" for e
          using Inr rows
          by (cases ?l)
             (auto simp: get_application_fields_def Let_def send_def
               split: sum.splits option.splits)
      qed
      then show ?thesis by (rule unretried_after_one [of srv tr ?r, OF nf])
    qed
  qed
qed

lemma find_application_unretried:
  "unretried srv tr (find_application srv app_name applications st tr)"
proof (induction applications)
  case Nil
  show ?case by (simp add: unretriedI_none)
next
  case (Cons application rest)
  have stop: "unretried srv tr (Inl e, s, tr)" for e :: error and s
    by (simp add: unretriedI_none)
  show ?case
    by (simp add: stop Cons.IH get_application_fields_unretried split: sum.splits)
qed

lemma from_application_unretried:
  "unretried srv tr (from_application srv app_name st tr)"
proof -
  let ?r = "\<lparr>verb = GET, url = api_url_base st @ ''core/system/application/'',
             req_headers = headers st, json = None\<rparr>"
  show ?thesis
  proof (cases "decoded ArcherAPIError (srv tr ?r)")
    case (Inl e)
    have "failed (srv tr ?r) \<Longrightarrow> e = translated (srv tr ?r)"
      using Inl decoded_failed by fastforce
    with Inl show ?thesis
      by (intro unretriedI_one [where r = ?r])
         (simp_all add: from_application_def Let_def send_def)
  next
    case (Inr data)
    then have nf: "\<not> failed (srv tr ?r)" using decoded_failed by fastforce
    show ?thesis
    proof (cases "py_iter data")
      case (Inl e)
      with Inr nf show ?thesis
        by (intro unretriedI_one [where r = ?r])
           (simp_all add: from_application_def Let_def send_def)
    next
      case apps: (Inr applications)
      have "unretried srv (tr @ [Sent ?r])
              (find_application srv app_name applications (ensure_client st) (tr @ [Sent ?r]))"
        by (rule find_application_unretried)
      then have "unretried srv tr
              (find_application srv app_name applications (ensure_client st) (tr @ [Sent ?r]))"
        by (rule unretried_after_one [of srv tr ?r, OF nf])
      with Inr apps show ?thesis
        by (simp add: from_application_def Let_def send_def)
    qed
  qed
qed

lemma fetch_batches_unretried:
  "unretried srv tr (fetch_batches srv endpoint_url max_records skip cfb recs st tr)"
proof (induction "nat (max_records - skip)" arbitrary: skip cfb recs st tr rule: less_induct)
  case less
  let ?f = "fetch_batches srv endpoint_url max_records skip cfb recs st tr"
  show ?case
  proof (cases "skip < max_records")
    case False
    then show ?thesis by (simp add: fetch_batches_stop unretriedI_none)
  next
    case True
    let ?req = "grc_request st endpoint_url skip"
    let ?rep = "srv tr ?req"
    let ?st1 = "ensure_client st"
    let ?tr1 = "tr @ [Sent ?req]"
    show ?thesis
    proof (cases "failed ?rep")
      case f: True
      then have "batch_of ?rep = Inl (translated ?rep)"
        by (simp add: batch_of_def decoded_failed)
      then have "?f = (Inl (translated ?rep), ?st1, ?tr1)"
        unfolding fetch_batches_step [OF True] by (simp add: Let_def)
      then show ?thesis by (intro unretriedI_one [where r = ?req]) simp_all
    next
      case nf: False
      have alt: "(\<exists>res. ?f = (res, ?st1, ?tr1))
         \<or> (\<exists>c r. ?f = fetch_batches srv endpoint_url max_records (skip + 1000) c r ?st1 ?tr1)"
        unfolding fetch_batches_step [OF True]
        by (auto simp: Let_def split: sum.splits)
      then show ?thesis
      proof
        assume "\<exists>res. ?f = (res, ?st1, ?tr1)"
        then obtain res where "?f = (res, ?st1, ?tr1)" by blast
        with nf show ?thesis by (intro unretriedI_one [where r = ?req]) simp_all
      next
        assume "\<exists>c r. ?f = fetch_batches srv endpoint_url max_records (skip + 1000) c r ?st1 ?tr1"
        then obtain c r where
          fg: "?f = fetch_batches srv endpoint_url max_records (skip + 1000) c r ?st1 ?tr1"
          by blast
        from True have m: "nat (max_records - (skip + 1000)) < nat (max_records - skip)" by simp
        have "unretried srv ?tr1
                (fetch_batches srv endpoint_url max_records (skip + 1000) c r ?st1 ?tr1)"
          by (rule less.hyps [OF m])
        then have "unretried srv tr
                (fetch_batches srv endpoint_url max_records (skip + 1000) c r ?st1 ?tr1)"
          by (rule unretried_after_one [of srv tr ?req, OF nf])
        with fg show ?thesis by simp
      qed
    qed
  qed
qed

lemma build_unique_value_to_id_mapping_unretried:
  "unretried srv tr
     (build_unique_value_to_id_mapping srv fmt endpoint_url key_value_field pfx max_records st tr)"
proof (rule unretried_same [OF fetch_batches_unretried
         [of srv tr endpoint_url max_records 0 0 "[]" st]])
  let ?f = "fetch_batches srv endpoint_url max_records 0 0 [] st tr"
  show "snd (snd (build_unique_value_to_id_mapping srv fmt endpoint_url key_value_field pfx
                    max_records st tr)) = snd (snd ?f)"
    by (cases ?f)
       (auto simp: build_unique_value_to_id_mapping_def split: sum.splits prod.splits option.splits)
  show "fst ?f = Inl e \<Longrightarrow>
        fst (build_unique_value_to_id_mapping srv fmt endpoint_url key_value_field pfx
               max_records st tr) = Inl e" for e
    by (cases ?f) (auto simp: build_unique_value_to_id_mapping_def)
qed

lemma getitem_not_network: "getitem v k \<noteq> Inl NetworkError"
  by (cases "(v, k)" rule: getitem.cases) (auto simp: index_def split: option.splits sum.splits)

lemma session_token_of_not_network: "session_token_of data \<noteq> Inl NetworkError"
  using getitem_not_network by (auto simp: session_token_of_def split: sum.splits)

lemma login_except_network [simp]: "(login_except e = NetworkError) = (e = NetworkError)"
  by (simp add: login_except_def)

lemma login_request_ensure_client [simp]:
  "login_request (ensure_client st) creds = login_request st creds"
  by (simp add: login_request_def)

lemma credentials_ensure_client [simp]: "credentials (ensure_client st) = credentials st"
  by (simp add: ensure_client_def)

lemma attempt_shape:
  assumes "credentials st = Some creds"
  shows "\<exists>res st'. get_session_token_attempt srv st tr =
                     (res, st', tr @ [Sent (login_request st creds)])
     \<and> ((res = Inl NetworkError) = (srv tr (login_request st creds) = Raises NetworkError))
     \<and> (res = Inl NetworkError \<longrightarrow> st' = ensure_client st)
     \<and> (\<forall>e. srv tr (login_request st creds) = Raises e \<longrightarrow> res = Inl (login_except e))
     \<and> (srv tr (login_request st creds) = Status_error \<longrightarrow> res = Inl AuthenticationError)"
proof (cases "srv tr (login_request st creds)")
  case (Json data)
  with assms session_token_of_not_network [of data] show ?thesis
    by (cases "session_token_of data")
       (auto simp: get_session_token_attempt_def Let_def send_def decoded_def as_str_def
             split: pyval.splits)
qed (use assms in \<open>auto simp: get_session_token_attempt_def Let_def send_def decoded_def
       login_except_def\<close>)

lemma replies_attempts_nonempty: "replies srv t (attempts r a (Suc k)) \<noteq> []"
  by (cases k) simp_all

lemma attempts_Suc:
  "1 \<le> k \<Longrightarrow> attempts r a (Suc k) = Sent r # Slept a # attempts r (Suc a) k"
  by (cases k) simp_all

lemma retrying_login:
  assumes "credentials st = Some creds"
  shows "\<exists>k. 1 \<le> k \<and> k \<le> Suc left
     \<and> snd (snd (retrying left a (get_session_token_attempt srv) st tr)) =
         tr @ attempts (login_request st creds) a k
     \<and> (\<forall>rep \<in> set (butlast (replies srv tr (attempts (login_request st creds) a k))).
           rep = Raises NetworkError)
     \<and> (k < Suc left \<longrightarrow>
           last (replies srv tr (attempts (login_request st creds) a k)) \<noteq> Raises NetworkError)
     \<and> (\<forall>e. last (replies srv tr (attempts (login_request st creds) a k)) = Raises e \<longrightarrow>
           fst (retrying left a (get_session_token_attempt srv) st tr) = Inl (login_except e))
     \<and> (last (replies srv tr (attempts (login_request st creds) a k)) = Status_error \<longrightarrow>
           fst (retrying left a (get_session_token_attempt srv) st tr) = Inl AuthenticationError)"
  using assms
proof (induction left arbitrary: a st tr)
  case 0
  let ?r = "login_request st creds"
  from attempt_shape [OF 0, of srv tr]
  obtain res st' where at: "get_session_token_attempt srv st tr = (res, st', tr @ [Sent ?r])"
    and e: "\<forall>e. srv tr ?r = Raises e \<longrightarrow> res = Inl (login_except e)"
    and s: "srv tr ?r = Status_error \<longrightarrow> res = Inl AuthenticationError"
    by blast
  show ?case
    using e s by (intro exI [of _ "Suc 0"]) (simp add: at)
next
  case (Suc left)
  let ?r = "login_request st creds"
  let ?out = "retrying (Suc left) a (get_session_token_attempt srv) st tr"
  from attempt_shape [OF Suc.prems, of srv tr]
  obtain res st' where at: "get_session_token_attempt srv st tr = (res, st', tr @ [Sent ?r])"
    and n: "(res = Inl NetworkError) = (srv tr ?r = Raises NetworkError)"
    and st': "res = Inl NetworkError \<longrightarrow> st' = ensure_client st"
    and e: "\<forall>e. srv tr ?r = Raises e \<longrightarrow> res = Inl (login_except e)"
    and s: "srv tr ?r = Status_error \<longrightarrow> res = Inl AuthenticationError"
    by blast
  show ?case
  proof (cases "res = Inl NetworkError")
    case False
    then have out: "?out = (res, st', tr @ [Sent ?r])"
      by (cases res) (simp_all add: at)
    show ?thesis
      using e s n False by (intro exI [of _ "Suc 0"]) (simp add: out del: retrying.simps)
  next
    case True
    with st' have s1: "st' = ensure_client st" by simp
    let ?tr1 = "(tr @ [Sent ?r]) @ [Slept a]"
    let ?next = "retrying left (Suc a) (get_session_token_attempt srv) (ensure_client st) ?tr1"
    have out: "?out = ?next" using True s1 by (simp add: at)
    have c: "credentials (ensure_client st) = Some creds" using Suc.prems by simp
    from Suc.IH [OF c, of "Suc a" ?tr1]
    obtain k where k1: "1 \<le> k" and k2: "k \<le> Suc left"
      and t: "snd (snd ?next) = ?tr1 @ attempts ?r (Suc a) k"
      and b: "\<forall>rep \<in> set (butlast (replies srv ?tr1 (attempts ?r (Suc a) k))).
                rep = Raises NetworkError"
      and l: "k < Suc left \<longrightarrow> last (replies srv ?tr1 (attempts ?r (Suc a) k)) \<noteq> Raises NetworkError"
      and le: "\<forall>e. last (replies srv ?tr1 (attempts ?r (Suc a) k)) = Raises e \<longrightarrow>
                fst ?next = Inl (login_except e)"
      and ls: "last (replies srv ?tr1 (attempts ?r (Suc a) k)) = Status_error \<longrightarrow>
                fst ?next = Inl AuthenticationError"
      by (simp only: login_request_ensure_client) blast
    from k1 obtain j where kj: "k = Suc j" by (cases k) auto
    have ne: "replies srv ?tr1 (attempts ?r (Suc a) k) \<noteq> []"
      unfolding kj by (rule replies_attempts_nonempty)
    have reps: "replies srv tr (attempts ?r a (Suc k)) =
                srv tr ?r # replies srv ?tr1 (attempts ?r (Suc a) k)"
      by (simp add: attempts_Suc [OF k1])
    have first: "srv tr ?r = Raises NetworkError" using True n by simp
    have 1: "1 \<le> Suc k \<and> Suc k \<le> Suc (Suc left)" using k2 by simp
    have 2: "snd (snd ?out) = tr @ attempts ?r a (Suc k)"
      using t by (simp add: out attempts_Suc [OF k1] del: retrying.simps)
    have 3: "\<forall>rep \<in> set (butlast (replies srv tr (attempts ?r a (Suc k)))).
                rep = Raises NetworkError"
      using b ne first by (simp add: reps)
    have 4: "Suc k < Suc (Suc left) \<longrightarrow>
               last (replies srv tr (attempts ?r a (Suc k))) \<noteq> Raises NetworkError"
      using l ne by (simp add: reps)
    have 5: "\<forall>e. last (replies srv tr (attempts ?r a (Suc k))) = Raises e \<longrightarrow>
                fst ?out = Inl (login_except e)"
      using le ne by (simp add: reps out del: retrying.simps)
    have 6: "last (replies srv tr (attempts ?r a (Suc k))) = Status_error \<longrightarrow>
                fst ?out = Inl AuthenticationError"
      using ls ne by (simp add: reps out del: retrying.simps)
    from 1 2 3 4 5 6 show ?thesis
      by (intro exI [of _ "Suc k"]) (simp only: simp_thms)
  qed
qed

lemma get_session_token_no_credentials:
  "credentials st = None \<Longrightarrow>
   get_session_token srv st tr = (Inl AuthenticationError, st, tr)"
  by (simp add: get_session_token_def numeral_2_eq_2 get_session_token_attempt_def)

lemma get_session_token_retries:
  assumes "credentials st = Some creds"
  shows "\<exists>k. 1 \<le> k \<and> k \<le> 3
     \<and> snd (snd (get_session_token srv st tr)) = tr @ attempts (login_request st creds) 1 k
     \<and> (\<forall>rep \<in> set (butlast (replies srv tr (attempts (login_request st creds) 1 k))).
           rep = Raises NetworkError)
     \<and> (k < 3 \<longrightarrow>
           last (replies srv tr (attempts (login_request st creds) 1 k)) \<noteq> Raises NetworkError)
     \<and> (\<forall>e. last (replies srv tr (attempts (login_request st creds) 1 k)) = Raises e \<longrightarrow>
           fst (get_session_token srv st tr) = Inl (login_except e))
     \<and> (last (replies srv tr (attempts (login_request st creds) 1 k)) = Status_error \<longrightarrow>
           fst (get_session_token srv st tr) = Inl AuthenticationError)"
  using retrying_login [OF assms, of 2 1 srv tr]
  by (simp add: get_session_token_def eval_nat_numeral)

lemma get_active_users_with_no_login_once:
  "unretried srv tr (get_active_users_with_no_login srv mk_user st tr)
   \<and> at_most_once tr (get_active_users_with_no_login srv mk_user st tr)"
  unfolding get_active_users_with_no_login_def by (rule get_users_once)

lemma update_content_record_once:
  "unretried srv tr (update_content_record srv fields_json rid st tr)
   \<and> at_most_once tr (update_content_record srv fields_json rid st tr)"
  unfolding update_content_record_def by (rule create_content_record_once)

lemma aenter_trace:
  "snd (snd (aenter srv st tr)) =
     (if truthy_str (session_token st) then tr
      else snd (snd (get_session_token srv (ensure_client st) tr)))"
  by (cases "get_session_token srv (ensure_client st) tr")
     (auto simp: aenter_def Let_def split: sum.splits)

lemma cred_client_credentials: "credentials cred_client = Some api_credentials"
  by (simp add: cred_client_def)

lemma flaky_run:
  "get_session_token flaky_server cred_client [] =
     (Inr ''tok2'', (ensure_client cred_client)\<lparr>session_token := Some ''tok2''\<rparr>,
      [Sent (login_request cred_client api_credentials), Slept 1,
       Sent (login_request cred_client api_credentials), Slept 2,
       Sent (login_request cred_client api_credentials)])"
  by (simp add: get_session_token_def eval_nat_numeral get_session_token_attempt_def
      cred_client_credentials Let_def send_def flaky_server_def decoded_def login_except_def
      session_token_of_def index_def as_str_def ensure_client_idem)

lemma dead_run:
  "get_session_token dead_server cred_client [] =
     (Inl NetworkError, ensure_client cred_client,
      [Sent (login_request cred_client api_credentials), Slept 1,
       Sent (login_request cred_client api_credentials), Slept 2,
       Sent (login_request cred_client api_credentials)])"
  by (simp add: get_session_token_def eval_nat_numeral get_session_token_attempt_def
      cred_client_credentials Let_def send_def dead_server_def decoded_def login_except_def
      ensure_client_idem)



end
